theory Spec2Isabelle
  imports Complex_Main
begin

section \<open>Equivalent width of the H-beta line (Balmer\_Decrement\_Tutorial)\<close>

text \<open>
  The notebook loads the arrays \<open>wave\<close> and \<open>flux\<close> from a file and measures the
  equivalent width of H-beta with these statements, in this order (the statements
  between them that only label a figure are left out):
  \<^verbatim>\<open>
  plt.plot(wave,flux)
  plt.plot(wave,flux,color='k')
  z = 0.05217
  restwave = wave/(1+z)
  iwave = (restwave > 4800) & (restwave < 4900)
  plt.plot(restwave[iwave],flux[iwave])
  iwave_noline = ((restwave > 4800) & (restwave < 4858)) | ((restwave > 4865) & (restwave < 4900))
  cs = CubicSpline(restwave[iwave_noline], flux[iwave_noline])
  plt.plot(restwave[iwave],flux[iwave])
  plt.plot(restwave[iwave],cs(restwave[iwave]))
  iwave_lineonly = (restwave > 4850) & (restwave < 4870)
  linesub = flux[iwave_lineonly] - cs(restwave[iwave_lineonly])
  ew = np.trapz(linesub/cs(restwave[iwave_lineonly]),x=restwave[iwave_lineonly])
  \<close>
  Arrays are lists. A finite float64 is modelled by a real number and the arithmetic on
  finite values by the exact arithmetic of the reals: rounding is not modelled, and
  overflow only where the library tests for it (the spline's constructor). What is
  kept of IEEE arithmetic is what decides the control flow and the kind of result: a
  division by zero raises nothing in numpy, it yields an infinity or a nan, which then
  propagates through the quadrature. Two facts about float64 that the exact
  arithmetic hides are recalled where they matter: a polynomial piece evaluated at
  its own left breakpoint returns its constant coefficient exactly, anywhere else its
  value is rounded; and results of magnitude \<open>2^1024\<close> or more overflow.
\<close>

subsection \<open>Floating-point values with infinities and nan\<close>

text \<open>\<open>Inf True\<close> is \<open>+inf\<close>, \<open>Inf False\<close> is \<open>-inf\<close>. There is one zero, which behaves as \<open>+0.0\<close>.\<close>

datatype npfloat = Fin real | Inf bool | NaN

fun fadd :: "npfloat \<Rightarrow> npfloat \<Rightarrow> npfloat" where
  "fadd (Fin a) (Fin b) = Fin (a + b)"
| "fadd NaN _ = NaN"
| "fadd _ NaN = NaN"
| "fadd (Inf s) (Inf t) = (if s = t then Inf s else NaN)"
| "fadd (Inf s) (Fin _) = Inf s"
| "fadd (Fin _) (Inf t) = Inf t"

fun fmul :: "npfloat \<Rightarrow> npfloat \<Rightarrow> npfloat" where
  "fmul (Fin a) (Fin b) = Fin (a * b)"
| "fmul NaN _ = NaN"
| "fmul _ NaN = NaN"
| "fmul (Inf s) (Inf t) = Inf (s = t)"
| "fmul (Inf s) (Fin b) = (if b = 0 then NaN else Inf (s = (0 < b)))"
| "fmul (Fin a) (Inf t) = (if a = 0 then NaN else Inf ((0 < a) = t))"

fun fdiv :: "npfloat \<Rightarrow> npfloat \<Rightarrow> npfloat" where
  "fdiv (Fin a) (Fin b) =
     (if b \<noteq> 0 then Fin (a / b) else if a = 0 then NaN else Inf (0 < a))"
| "fdiv NaN _ = NaN"
| "fdiv _ NaN = NaN"
| "fdiv (Inf s) (Inf t) = NaN"
| "fdiv (Inf s) (Fin b) = Inf (s = (0 \<le> b))"
| "fdiv (Fin a) (Inf t) = Fin 0"

fun isfinite :: "npfloat \<Rightarrow> bool" where
  "isfinite (Fin _) = True"
| "isfinite _ = False"

subsection \<open>Masks and boolean indexing\<close>

datatype error = IndexError | ValueError

text \<open>The redshift \<open>z = 0.05217\<close> and the rest-frame wavelengths \<open>wave/(1+z)\<close>.\<close>

definition z :: real where
  "z = 5217 / 100000"

definition restwave :: "real list \<Rightarrow> real list" where
  "restwave wave = map (\<lambda>w. w / (1 + z)) wave"

text \<open>The three masks, as the test each applies to one rest wavelength.\<close>

definition iwave :: "real \<Rightarrow> bool" where
  "iwave w \<longleftrightarrow> w > 4800 \<and> w < 4900"

definition iwave_noline :: "real \<Rightarrow> bool" where
  "iwave_noline w \<longleftrightarrow> (w > 4800 \<and> w < 4858) \<or> (w > 4865 \<and> w < 4900)"

definition iwave_lineonly :: "real \<Rightarrow> bool" where
  "iwave_lineonly w \<longleftrightarrow> w > 4850 \<and> w < 4870"

text \<open>
  \<open>a[mask]\<close>: the elements of \<open>a\<close> where the mask is true, in order, as a new array.
  numpy raises IndexError when the mask and the array differ in length, unless the
  mask is empty: it compares the two lengths only for a mask of positive length, and
  an empty mask selects the empty array from an array of any length.
\<close>

definition bool_index :: "'a list \<Rightarrow> bool list \<Rightarrow> error + 'a list" where
  "bool_index a msk =
     (if msk = [] then Inr []
      else if length msk \<noteq> length a then Inl IndexError
      else Inr (map fst (filter snd (zip a msk))))"

text \<open>
  \<open>plt.plot(x, y)\<close> draws a figure. What the model keeps of it is that matplotlib
  raises ValueError when \<open>x\<close> and \<open>y\<close> differ in length.
\<close>

definition plot :: "real list \<Rightarrow> real list \<Rightarrow> error + unit" where
  "plot x y = (if length x \<noteq> length y then Inl ValueError else Inr ())"

subsection \<open>The trapezoidal rule\<close>

text \<open>\<open>np.diff(a)\<close> is \<open>a[1:] - a[:-1]\<close>.\<close>

definition diff :: "real list \<Rightarrow> real list" where
  "diff a = map2 (\<lambda>u v. u - v) (tl a) (butlast a)"

text \<open>\<open>.sum()\<close> of a float array; the sum of the empty array is \<open>0.0\<close>.\<close>

definition fsum :: "npfloat list \<Rightarrow> npfloat" where
  "fsum ys = foldl fadd (Fin 0) ys"

text \<open>
  \<open>np.trapz(y, x=x)\<close> computes \<open>d = diff(x)\<close> and returns
  \<open>(d * (y[1:] + y[:-1]) / 2.0).sum()\<close>. The notebook calls it with two arrays
  selected by the same mask, so \<open>x\<close> and \<open>y\<close> have the same length.
\<close>

definition trapz :: "npfloat list \<Rightarrow> real list \<Rightarrow> npfloat" where
  "trapz y x =
     (let d = diff x
      in fsum (map2 (\<lambda>d s. fdiv (fmul (Fin d) s) (Fin 2)) d (map2 fadd (tl y) (butlast y))))"

subsection \<open>The cubic spline of scipy\<close>

text \<open>
  \<open>CubicSpline(x, y)\<close> is called with its default arguments: the boundary condition
  is not-a-knot and the spline extrapolates outside its nodes. The constructor
  \<^enum> rejects, each with a ValueError and in this order, fewer than two nodes, arrays
    of different lengths, an \<open>x\<close> or a \<open>y\<close> with a value that is not finite
    (\<open>not np.all(np.isfinite(y))\<close>) and nodes that are not strictly increasing
    (\<open>np.any(dx <= 0)\<close>);
  \<^enum> computes the derivative \<open>s\<close> of the spline at every node from a tridiagonal
    linear system (for two nodes both derivatives are the slope of the line through
    them, for three nodes the system is that of the parabola through them);
  \<^enum> rejects with a ValueError derivatives that are not finite;
  \<^enum> stores, for every interval between two nodes, the cubic in Hermite form.

  The linear system is solved here by elimination in exact arithmetic, where the
  library calls LAPACK. For strictly increasing nodes every pivot of the elimination
  is positive and its result is the one solution of the system (lemma
  \<open>spline_system_solved\<close> below).
\<close>

text \<open>
  \<open>np.all(np.isfinite(a))\<close> on an array the model holds as reals. A float64 is
  finite when its magnitude is below \<open>2^1024\<close>; a computed value of that magnitude
  or more is what float64 arithmetic returns as an infinity. An overflow in an
  intermediate result of the library, whose exact final value is in range again, is
  not modelled.
\<close>

definition np_all_isfinite :: "real list \<Rightarrow> bool" where
  "np_all_isfinite a = list_all (\<lambda>v. \<bar>v\<bar> < 2 ^ 1024) a"

text \<open>One row of a tridiagonal system: lower, diagonal and upper entry, right-hand side.\<close>

type_synonym row = "real \<times> real \<times> real \<times> real"

text \<open>
  Forward elimination: \<open>cp\<close> and \<open>dp\<close> are the upper entry and the right-hand side of
  the row above, after it was divided by its pivot.
\<close>

fun sweep :: "real \<Rightarrow> real \<Rightarrow> row list \<Rightarrow> (real \<times> real) list" where
  "sweep cp dp [] = []"
| "sweep cp dp ((a, b, c, d) # rows) =
     (let m = b - a * cp; c' = c / m; d' = (d - a * dp) / m
      in (c', d') # sweep c' d' rows)"

fun backsub :: "(real \<times> real) list \<Rightarrow> real list" where
  "backsub [] = []"
| "backsub [(c, d)] = [d]"
| "backsub ((c, d) # r) = (let s = backsub r in (d - c * hd s) # s)"

definition solve_banded :: "row list \<Rightarrow> real list" where
  "solve_banded rows = backsub (sweep 0 0 rows)"

text \<open>
  The system for the derivatives \<open>s\<close>, with \<open>dx = diff x\<close> and
  \<open>slope = diff y / dx\<close>. Row \<open>i\<close> for \<open>0 < i < n - 1\<close> is
  \<open>dx[i] * s[i-1] + 2 * (dx[i-1] + dx[i]) * s[i] + dx[i-1] * s[i+1]
     = 3 * (dx[i] * slope[i-1] + dx[i-1] * slope[i])\<close>;
  the first and the last row are the not-a-knot conditions.
\<close>

definition spline_system :: "real list \<Rightarrow> real list \<Rightarrow> row list" where
  "spline_system x y =
     (let n = length x; dx = diff x; slope = map2 (\<lambda>u v. u / v) (diff y) dx
      in if n = 2 then
           [(0, 1, 0, slope ! 0), (0, 1, 0, slope ! 0)]
         else if n = 3 then
           [(0, 1, 1, 2 * slope ! 0),
            (dx ! 1, 2 * (dx ! 0 + dx ! 1), dx ! 0,
               3 * (dx ! 0 * slope ! 1 + dx ! 1 * slope ! 0)),
            (1, 1, 0, 2 * slope ! 1)]
         else
           (let d0 = x ! 2 - x ! 0; dn = x ! (n - 1) - x ! (n - 3)
            in [(0, dx ! 1, d0,
                   ((dx ! 0 + 2 * d0) * dx ! 1 * slope ! 0 + (dx ! 0)\<^sup>2 * slope ! 1) / d0)]
               @ map (\<lambda>i. (dx ! i, 2 * (dx ! (i - 1) + dx ! i), dx ! (i - 1),
                            3 * (dx ! i * slope ! (i - 1) + dx ! (i - 1) * slope ! i)))
                     [1 ..< n - 1]
               @ [(dn, dx ! (n - 3), 0,
                   ((dx ! (n - 2))\<^sup>2 * slope ! (n - 3)
                      + (2 * dn + dx ! (n - 2)) * dx ! (n - 3) * slope ! (n - 2)) / dn)]))"

text \<open>
  One piece of the piecewise polynomial: its left breakpoint and the coefficients of
  \<open>c0 * (x - left)^3 + c1 * (x - left)^2 + c2 * (x - left) + c3\<close>.
\<close>

record piece =
  left :: real
  c0 :: real
  c1 :: real
  c2 :: real
  c3 :: real

text \<open>
  The library evaluates a piece as \<open>c3 + c2 * s + c1 * s^2 + c0 * s^3\<close> with
  \<open>s = xval - left\<close>. At the left breakpoint \<open>s\<close> is \<open>0.0\<close> and float64 returns
  \<open>c3\<close> exactly, for finite coefficients; at any other \<open>xval\<close>, the right end of the
  piece included, the float64 value is the value below up to rounding.
\<close>

definition evaluate_poly :: "piece \<Rightarrow> real \<Rightarrow> real" where
  "evaluate_poly p xval =
     c0 p * (xval - left p) ^ 3 + c1 p * (xval - left p)\<^sup>2 + c2 p * (xval - left p) + c3 p"

text \<open>
  The Hermite form on the interval from \<open>(xa, ya)\<close> with derivative \<open>sa\<close> to
  \<open>(xb, yb)\<close> with derivative \<open>sb\<close>:
  \<open>t = (s[:-1] + s[1:] - 2 * slope) / dx\<close>, \<open>c[0] = t / dx\<close>,
  \<open>c[1] = (slope - s[:-1]) / dx - t\<close>, \<open>c[2] = s[:-1]\<close>, \<open>c[3] = y[:-1]\<close>.
\<close>

definition hermite_piece :: "real \<times> real \<times> real \<Rightarrow> real \<times> real \<times> real \<Rightarrow> piece" where
  "hermite_piece a b =
     (case (a, b) of ((xa, ya, sa), (xb, yb, sb)) \<Rightarrow>
        (let dx = xb - xa; slope = (yb - ya) / dx; t = (sa + sb - 2 * slope) / dx
         in \<lparr>left = xa, c0 = t / dx, c1 = (slope - sa) / dx - t, c2 = sa, c3 = ya\<rparr>))"

fun hermite_pieces :: "(real \<times> real \<times> real) list \<Rightarrow> piece list" where
  "hermite_pieces (a # b # r) = hermite_piece a b # hermite_pieces (b # r)"
| "hermite_pieces _ = []"

definition CubicSpline :: "real list \<Rightarrow> real list \<Rightarrow> error + piece list" where
  "CubicSpline x y =
     (if length x < 2 then Inl ValueError
      else if length x \<noteq> length y then Inl ValueError
      else if \<not> np_all_isfinite x then Inl ValueError
      else if \<not> np_all_isfinite y then Inl ValueError
      else if list_ex (\<lambda>d. d \<le> 0) (diff x) then Inl ValueError
      else (let s = solve_banded (spline_system x y)
            in if \<not> np_all_isfinite s then Inl ValueError
               else Inr (hermite_pieces (zip x (zip y s)))))"

text \<open>
  Calling the spline at \<open>xval\<close>: the piece of the interval \<open>left \<le> xval < right\<close> is
  evaluated; below the first node it is the first piece, from the last node on it is
  the last piece (extrapolation). A spline has at least one piece.
\<close>

fun call :: "piece list \<Rightarrow> real \<Rightarrow> real" where
  "call [] xval = 0"
| "call [p] xval = evaluate_poly p xval"
| "call (p # q # r) xval =
     (if xval < left q then evaluate_poly p xval else call (q # r) xval)"

subsection \<open>The equivalent width\<close>

text \<open>
  Each variable of the notebook as a function of the two input arrays, the statements
  taken in order. An exception ends the computation: the first \<open>Inl\<close> is the result.
  The arguments of a plot call are evaluated before the call, and they can raise.
\<close>

definition andthen :: "error + 'a \<Rightarrow> ('a \<Rightarrow> error + 'b) \<Rightarrow> error + 'b" where
  "andthen r f = (case r of Inl e \<Rightarrow> Inl e | Inr v \<Rightarrow> f v)"

definition cs :: "real list \<Rightarrow> real list \<Rightarrow> error + piece list" where
  "cs wave flux =
     andthen (plot wave flux) (\<lambda>_.
     andthen (plot wave flux) (\<lambda>_.
     (let rw = restwave wave in
      andthen (bool_index rw (map iwave rw)) (\<lambda>px.
      andthen (bool_index flux (map iwave rw)) (\<lambda>py.
      andthen (plot px py) (\<lambda>_.
      andthen (bool_index rw (map iwave_noline rw)) (\<lambda>xc.
      andthen (bool_index flux (map iwave_noline rw)) (\<lambda>yc.
        CubicSpline xc yc))))))))"

definition linesub :: "real list \<Rightarrow> real list \<Rightarrow> error + real list" where
  "linesub wave flux =
     (let rw = restwave wave in
      andthen (cs wave flux) (\<lambda>S.
      andthen (bool_index rw (map iwave rw)) (\<lambda>px.
      andthen (bool_index flux (map iwave rw)) (\<lambda>py.
      andthen (plot px py) (\<lambda>_.
      andthen (bool_index rw (map iwave rw)) (\<lambda>px.
      andthen (plot px (map (call S) px)) (\<lambda>_.
      andthen (bool_index flux (map iwave_lineonly rw)) (\<lambda>fl.
      andthen (bool_index rw (map iwave_lineonly rw)) (\<lambda>xl.
        Inr (map2 (\<lambda>f c. f - c) fl (map (call S) xl)))))))))))"

definition ew :: "real list \<Rightarrow> real list \<Rightarrow> error + npfloat" where
  "ew wave flux =
     (let rw = restwave wave in
      andthen (cs wave flux) (\<lambda>S.
      andthen (linesub wave flux) (\<lambda>ls.
      andthen (bool_index rw (map iwave_lineonly rw)) (\<lambda>xl.
        Inr (trapz (map2 (\<lambda>l c. fdiv (Fin l) (Fin c)) ls (map (call S) xl)) xl)))))"

subsection \<open>The notebook as a sequence of assignments\<close>

text \<open>
  The namespace of the notebook: one field for each variable the computation reads or
  assigns. A statement either raises or returns the namespace with its target
  assigned. No statement of the notebook updates an array in place, so an array is a
  value.
\<close>

record notebook =
  nb_wave :: "real list"
  nb_flux :: "real list"
  nb_z :: real
  nb_restwave :: "real list"
  nb_iwave :: "bool list"
  nb_iwave_noline :: "bool list"
  nb_cs :: "piece list"
  nb_iwave_lineonly :: "bool list"
  nb_linesub :: "real list"
  nb_ew :: npfloat

type_synonym stmt = "notebook \<Rightarrow> error + notebook"

definition plot_wave_flux :: stmt where
  "plot_wave_flux s = andthen (plot (nb_wave s) (nb_flux s)) (\<lambda>_. Inr s)"

definition assign_z :: stmt where
  "assign_z s = Inr (s\<lparr>nb_z := z\<rparr>)"

definition assign_restwave :: stmt where
  "assign_restwave s = Inr (s\<lparr>nb_restwave := map (\<lambda>w. w / (1 + nb_z s)) (nb_wave s)\<rparr>)"

definition assign_iwave :: stmt where
  "assign_iwave s = Inr (s\<lparr>nb_iwave := map iwave (nb_restwave s)\<rparr>)"

definition plot_spectrum :: stmt where
  "plot_spectrum s =
     andthen (bool_index (nb_restwave s) (nb_iwave s)) (\<lambda>px.
     andthen (bool_index (nb_flux s) (nb_iwave s)) (\<lambda>py.
     andthen (plot px py) (\<lambda>_. Inr s)))"

definition plot_continuum :: stmt where
  "plot_continuum s =
     andthen (bool_index (nb_restwave s) (nb_iwave s)) (\<lambda>px.
     andthen (plot px (map (call (nb_cs s)) px)) (\<lambda>_. Inr s))"

definition assign_iwave_noline :: stmt where
  "assign_iwave_noline s = Inr (s\<lparr>nb_iwave_noline := map iwave_noline (nb_restwave s)\<rparr>)"

definition assign_cs :: stmt where
  "assign_cs s =
     andthen (bool_index (nb_restwave s) (nb_iwave_noline s)) (\<lambda>xc.
     andthen (bool_index (nb_flux s) (nb_iwave_noline s)) (\<lambda>yc.
     andthen (CubicSpline xc yc) (\<lambda>S. Inr (s\<lparr>nb_cs := S\<rparr>))))"

definition assign_iwave_lineonly :: stmt where
  "assign_iwave_lineonly s =
     Inr (s\<lparr>nb_iwave_lineonly := map iwave_lineonly (nb_restwave s)\<rparr>)"

definition assign_linesub :: stmt where
  "assign_linesub s =
     andthen (bool_index (nb_flux s) (nb_iwave_lineonly s)) (\<lambda>fl.
     andthen (bool_index (nb_restwave s) (nb_iwave_lineonly s)) (\<lambda>xl.
       Inr (s\<lparr>nb_linesub := map2 (\<lambda>f c. f - c) fl (map (call (nb_cs s)) xl)\<rparr>)))"

definition assign_ew :: stmt where
  "assign_ew s =
     andthen (bool_index (nb_restwave s) (nb_iwave_lineonly s)) (\<lambda>xl.
       Inr (s\<lparr>nb_ew := trapz (map2 (\<lambda>l c. fdiv (Fin l) (Fin c))
                                     (nb_linesub s) (map (call (nb_cs s)) xl)) xl\<rparr>))"

text \<open>
  Running statements in order stops at the first exception; the namespace keeps what
  was assigned before it.
\<close>

fun exec :: "stmt list \<Rightarrow> notebook \<Rightarrow> notebook \<times> error option" where
  "exec [] s = (s, None)"
| "exec (c # r) s = (case c s of Inl e \<Rightarrow> (s, Some e) | Inr s' \<Rightarrow> exec r s')"

definition Hbeta_cells :: "stmt list" where
  "Hbeta_cells =
     [plot_wave_flux, plot_wave_flux, assign_z,
      assign_restwave, assign_iwave, plot_spectrum,
      assign_iwave_noline, assign_cs, plot_spectrum, plot_continuum,
      assign_iwave_lineonly, assign_linesub, assign_ew]"

subsection \<open>The specification's terms\<close>

text \<open>
  The samples of the spectrum are the pairs of a rest wavelength and the flux observed
  there. The continuum samples are those inside a continuum window, the line samples
  those inside the line window.
\<close>

definition continuum_samples :: "real list \<Rightarrow> real list \<Rightarrow> (real \<times> real) list" where
  "continuum_samples wave flux =
     filter (\<lambda>(w, f). iwave_noline w) (zip (restwave wave) flux)"

definition line_samples :: "real list \<Rightarrow> real list \<Rightarrow> (real \<times> real) list" where
  "line_samples wave flux =
     filter (\<lambda>(w, f). iwave_lineonly w) (zip (restwave wave) flux)"

text \<open>
  The trapezoidal rule over a sampled grid: every pair of neighbouring samples
  contributes the width of its interval times the mean of its two values.
\<close>

fun trapezoid_rule :: "(real \<times> npfloat) list \<Rightarrow> npfloat" where
  "trapezoid_rule ((x0, y0) # (x1, y1) # r) =
     fadd (fdiv (fmul (Fin (x1 - x0)) (fadd y0 y1)) (Fin 2)) (trapezoid_rule ((x1, y1) # r))"
| "trapezoid_rule _ = Fin 0"

text \<open>
  The equivalent width in the specification's words: the trapezoidal-rule integral,
  over the line samples, of the observed flux minus the continuum, divided by the
  continuum, where the continuum is the cubic spline through the continuum samples.
  It is stated for the spline \<open>S\<close> fitted through the continuum samples.
\<close>

definition spec_equivalent_width :: "piece list \<Rightarrow> (real \<times> real) list \<Rightarrow> npfloat" where
  "spec_equivalent_width S line =
     trapezoid_rule (map (\<lambda>(w, f). (w, fdiv (Fin (f - call S w)) (Fin (call S w)))) line)"

text \<open>
  What it means for \<open>s\<close> to solve a tridiagonal system: row \<open>i\<close> reads
  \<open>a * s[i-1] + b * s[i] + c * s[i+1] = d\<close>, with nothing before the first and
  nothing after the last unknown (\<open>sp\<close> is the unknown before the first row given).
  The pivots of the elimination are the numbers it divides by.
\<close>

fun solves :: "real \<Rightarrow> row list \<Rightarrow> real list \<Rightarrow> bool" where
  "solves sp [] ss = (ss = [])"
| "solves sp ((a, b, c, d) # rows) [] = False"
| "solves sp ((a, b, c, d) # rows) (s # ss) =
     (a * sp + b * s + c * (case ss of [] \<Rightarrow> 0 | t # _ \<Rightarrow> t) = d \<and> solves s rows ss)"

fun pivots :: "real \<Rightarrow> row list \<Rightarrow> bool" where
  "pivots cp [] = True"
| "pivots cp ((a, b, c, d) # rows) = (0 < b - a * cp \<and> pivots (c / (b - a * cp)) rows)"

section \<open>Lemmas about the model\<close>

subsection \<open>Arithmetic of the float model\<close>

lemma fadd_commute: "fadd a b = fadd b a"
  by (cases a; cases b) auto

lemma fadd_assoc: "fadd (fadd a b) c = fadd a (fadd b c)"
  by (cases a; cases b; cases c) auto

lemma fadd_zero [simp]: "fadd (Fin 0) v = v" "fadd v (Fin 0) = v"
  by (cases v; simp)+

lemma foldl_fadd: "foldl fadd a ys = fadd a (foldl fadd (Fin 0) ys)"
proof (induction ys arbitrary: a)
  case Nil
  show ?case by simp
next
  case (Cons y ys)
  have "foldl fadd a (y # ys) = fadd (fadd a y) (foldl fadd (Fin 0) ys)"
    using Cons.IH [of "fadd a y"] by simp
  also have "\<dots> = fadd a (fadd y (foldl fadd (Fin 0) ys))"
    by (rule fadd_assoc)
  also have "fadd y (foldl fadd (Fin 0) ys) = foldl fadd (Fin 0) (y # ys)"
    using Cons.IH [of y] by simp
  finally show ?case .
qed

lemma fsum_Nil [simp]: "fsum [] = Fin 0"
  by (simp add: fsum_def)

lemma fsum_Cons [simp]: "fsum (y # ys) = fadd y (fsum ys)"
  using foldl_fadd [of y ys] by (simp add: fsum_def)

subsection \<open>Boolean indexing selects samples\<close>

lemma bool_index_map:
  "bool_index a (map P b) =
     (if b \<noteq> [] \<and> length b \<noteq> length a then Inl IndexError
      else Inr (map fst (filter (\<lambda>(u, w). P w) (zip a b))))"
proof (cases "length b = length a")
  case True
  then have "map fst (filter snd (zip a (map P b))) = map fst (filter (\<lambda>(u, w). P w) (zip a b))"
    by (induction b a rule: list_induct2) auto
  with True show ?thesis by (simp add: bool_index_def)
next
  case False
  then show ?thesis by (simp add: bool_index_def)
qed

lemma bool_index_self: "bool_index a (map P a) = Inr (filter P a)"
proof -
  have "map fst (filter (\<lambda>(u, w). P w) (zip a a)) = filter P a"
    by (induction a) auto
  then show ?thesis by (simp add: bool_index_map)
qed

lemma select_fst:
  "length a = length b \<Longrightarrow> filter P b = map fst (filter (\<lambda>(w, u). P w) (zip b a))"
  by (induction a b rule: list_induct2) auto

lemma select_snd:
  "map fst (filter (\<lambda>(u, w). P w) (zip a b)) = map snd (filter (\<lambda>(w, u). P w) (zip b a))"
proof (induction a arbitrary: b)
  case Nil
  show ?case by simp
next
  case (Cons x a)
  show ?case by (cases b) (auto simp: Cons.IH)
qed

lemma length_restwave [simp]: "length (restwave wave) = length wave"
  by (simp add: restwave_def)

lemma restwave_empty [simp]: "restwave wave = [] \<longleftrightarrow> wave = []"
  by (simp add: restwave_def)

lemma index_restwave:
  "bool_index (restwave wave) (map P (restwave wave)) = Inr (filter P (restwave wave))"
  by (rule bool_index_self)

lemma index_flux:
  "bool_index flux (map P (restwave wave)) =
     (if wave \<noteq> [] \<and> length flux \<noteq> length wave then Inl IndexError
      else Inr (map snd (filter (\<lambda>(w, f). P w) (zip (restwave wave) flux))))"
  by (simp add: bool_index_map select_snd [of P flux])

lemma plot_selected:
  "length flux = length wave \<Longrightarrow>
     plot (filter P (restwave wave))
          (map snd (filter (\<lambda>(w, f). P w) (zip (restwave wave) flux))) = Inr ()"
  using select_fst [of flux "restwave wave" P] by (simp add: plot_def)

lemma plot_spline: "plot px (map (call S) px) = Inr ()"
  by (simp add: plot_def)

lemma continuum_wavelengths:
  "length flux = length wave \<Longrightarrow>
     filter iwave_noline (restwave wave) = map fst (continuum_samples wave flux)"
  unfolding continuum_samples_def by (rule select_fst) simp

lemma line_wavelengths:
  "length flux = length wave \<Longrightarrow>
     filter iwave_lineonly (restwave wave) = map fst (line_samples wave flux)"
  unfolding line_samples_def by (rule select_fst) simp

subsection \<open>The variables of the notebook in terms of the samples\<close>

lemma cs_eq:
  "cs wave flux =
     (if length flux \<noteq> length wave then Inl ValueError
      else CubicSpline (map fst (continuum_samples wave flux))
                       (map snd (continuum_samples wave flux)))"
proof (cases "length flux = length wave")
  case False
  then show ?thesis
    by (auto simp: cs_def plot_def andthen_def)
next
  case True
  have "plot wave flux = Inr ()"
    using True by (simp add: plot_def)
  with True show ?thesis
    by (simp add: cs_def Let_def andthen_def index_restwave index_flux [of flux]
          plot_selected continuum_wavelengths [of flux]
          continuum_samples_def [symmetric])
qed

lemma linesub_eq:
  "linesub wave flux =
     andthen (cs wave flux)
       (\<lambda>S. Inr (map (\<lambda>(w, f). f - call S w) (line_samples wave flux)))"
proof (cases "length flux = length wave")
  case False
  then show ?thesis by (simp add: linesub_def cs_eq andthen_def)
next
  case True
  have m: "map2 (\<lambda>f c. f - c) (map snd l) (map (call S) (map fst l))
             = map (\<lambda>(w, f). f - call S w) l" for l :: "(real \<times> real) list" and S
    by (induction l) auto
  show ?thesis
    using True
    by (simp add: linesub_def Let_def andthen_def index_restwave index_flux [of flux]
          plot_selected plot_spline
          line_wavelengths [of flux] line_samples_def [symmetric] m
          del: map_map split: sum.splits)
qed

lemma ew_eq:
  "ew wave flux =
     andthen (cs wave flux)
       (\<lambda>S. Inr (trapz (map (\<lambda>(w, f). fdiv (Fin (f - call S w)) (Fin (call S w)))
                           (line_samples wave flux))
                       (map fst (line_samples wave flux))))"
proof (cases "length flux = length wave")
  case False
  then show ?thesis by (simp add: ew_def cs_eq andthen_def)
next
  case True
  have m: "map2 (\<lambda>l c. fdiv (Fin l) (Fin c)) (map (\<lambda>(w, f). f - call S w) l)
             (map (call S) (map fst l))
             = map (\<lambda>(w, f). fdiv (Fin (f - call S w)) (Fin (call S w))) l"
    for l :: "(real \<times> real) list" and S
    by (induction l) auto
  show ?thesis
    using True
    by (simp add: ew_def linesub_eq Let_def andthen_def index_restwave
          line_wavelengths [of flux] m del: map_map fdiv.simps split: sum.splits)
qed

subsection \<open>Differences and strictly increasing nodes\<close>

lemma diff_simps [simp]:
  "diff [] = []" "diff [a] = []" "diff (a # b # r) = (b - a) # diff (b # r)"
  by (simp_all add: diff_def)

lemma length_diff [simp]: "length (diff x) = length x - 1"
  by (simp add: diff_def)

lemma increasing_iff: "(\<not> list_ex (\<lambda>d. d \<le> 0) (diff x)) = sorted_wrt (<) x"
proof (induction x rule: induct_list012)
  case (3 a b r)
  have "sorted_wrt (<) (a # b # r) = (a < b \<and> sorted_wrt (<) (b # r))"
    by (rule sorted_wrt2) (simp add: transp_on_def)
  with 3 show ?case by auto
qed simp_all

lemma CubicSpline_samples:
  "CubicSpline (map fst n) (map snd n) =
     (if length n < 2 \<or> \<not> np_all_isfinite (map fst n) \<or> \<not> np_all_isfinite (map snd n)
       \<or> \<not> sorted_wrt (<) (map fst n)
       \<or> \<not> np_all_isfinite (solve_banded (spline_system (map fst n) (map snd n)))
      then Inl ValueError
      else Inr (hermite_pieces
                 (zip (map fst n)
                    (zip (map snd n) (solve_banded (spline_system (map fst n) (map snd n)))))))"
  using increasing_iff [of "map fst n"] by (auto simp: CubicSpline_def Let_def)

lemma np_all_isfinite_simps [simp]:
  "np_all_isfinite [] = True"
  "np_all_isfinite (v # r) = (\<bar>v\<bar> < 2 ^ 1024 \<and> np_all_isfinite r)"
  by (simp_all add: np_all_isfinite_def)

subsection \<open>The quadrature\<close>

lemma trapz_simps [simp]:
  "trapz [] [] = Fin 0"
  "trapz [y0] [x0] = Fin 0"
  "trapz (y0 # y1 # s) (x0 # x1 # r) =
     fadd (fdiv (fmul (Fin (x1 - x0)) (fadd y1 y0)) (Fin 2)) (trapz (y1 # s) (x1 # r))"
  by (simp_all add: trapz_def)

lemma trapz_eq: "length ys = length xs \<Longrightarrow> trapz ys xs = trapezoid_rule (zip xs ys)"
proof (induction xs arbitrary: ys rule: induct_list012)
  case 1
  then show ?case by simp
next
  case (2 x)
  then show ?case by (cases ys) simp_all
next
  case (3 x0 x1 r)
  then obtain y0 y1 s where ys: "ys = y0 # y1 # s"
    by (cases ys; cases "tl ys") auto
  with 3 have "trapz (y1 # s) (x1 # r) = trapezoid_rule (zip (x1 # r) (y1 # s))"
    by simp
  then show ?case
    by (simp add: ys fadd_commute [of y1 y0] del: fdiv.simps fmul.simps fadd.simps)
qed

lemma zip_map_fst_map: "zip (map fst l) (map h l) = map (\<lambda>v. (fst v, h v)) l"
  by (induction l) auto

lemma ew_spec:
  "ew wave flux =
     andthen (cs wave flux) (\<lambda>S. Inr (spec_equivalent_width S (line_samples wave flux)))"
proof -
  have "trapz (map (\<lambda>(w, f). fdiv (Fin (f - call S w)) (Fin (call S w))) l) (map fst l)
          = spec_equivalent_width S l" for S and l :: "(real \<times> real) list"
    by (simp add: trapz_eq zip_map_fst_map spec_equivalent_width_def case_prod_unfold
          del: fdiv.simps)
  then show ?thesis by (simp add: ew_eq)
qed

subsection \<open>Values that are not finite propagate\<close>

lemma fadd_not_finite: "\<not> isfinite a \<or> \<not> isfinite b \<Longrightarrow> \<not> isfinite (fadd a b)"
  by (cases a; cases b) auto

lemma fmul_not_finite: "\<not> isfinite b \<Longrightarrow> \<not> isfinite (fmul (Fin d) b)"
  by (cases b) auto

lemma fdiv_not_finite: "\<not> isfinite a \<Longrightarrow> \<not> isfinite (fdiv a (Fin 2))"
  by (cases a) auto

lemma fdiv_zero_not_finite: "\<not> isfinite (fdiv (Fin a) (Fin 0))"
  by simp

lemma trapezoid_not_finite:
  "2 \<le> length l \<Longrightarrow> \<exists>(x, y) \<in> set l. \<not> isfinite y \<Longrightarrow> \<not> isfinite (trapezoid_rule l)"
proof (induction l rule: trapezoid_rule.induct)
  case (1 x0 y0 x1 y1 r)
  show ?case
  proof (cases "isfinite y0 \<and> isfinite y1")
    case False
    then have "\<not> isfinite (fdiv (fmul (Fin (x1 - x0)) (fadd y0 y1)) (Fin 2))"
      by (intro fdiv_not_finite fmul_not_finite fadd_not_finite) auto
    then show ?thesis
      by (simp add: fadd_not_finite del: fdiv.simps fmul.simps fadd.simps)
  next
    case True
    with 1(3) have ex: "\<exists>(x, y) \<in> set r. \<not> isfinite y" by auto
    then have "r \<noteq> []" by auto
    then have "2 \<le> length ((x1, y1) # r)" by (cases r) auto
    with ex have "\<not> isfinite (trapezoid_rule ((x1, y1) # r))"
      by (intro 1(1)) auto
    then show ?thesis
      by (simp add: fadd_not_finite del: fdiv.simps fmul.simps fadd.simps)
  qed
qed simp_all

subsection \<open>The solver returns one derivative for each node\<close>

lemma length_sweep [simp]: "length (sweep cp dp rows) = length rows"
  by (induction rows arbitrary: cp dp) (auto simp: Let_def)

lemma length_backsub [simp]: "length (backsub l) = length l"
  by (induction l rule: backsub.induct) (auto simp: Let_def)

lemma length_spline_system: "2 \<le> length x \<Longrightarrow> length (spline_system x y) = length x"
  by (auto simp: spline_system_def Let_def)

lemma length_solve: "2 \<le> length x \<Longrightarrow> length (solve_banded (spline_system x y)) = length x"
  by (simp add: solve_banded_def length_spline_system)

subsection \<open>The pieces of the spline\<close>

lemma left_hermite_piece [simp]: "left (hermite_piece (xa, ya, sa) b) = xa"
  by (cases b) (simp add: hermite_piece_def Let_def)

subsection \<open>The spline through constant values is that constant\<close>

lemma sweep_zero:
  "\<forall>(a, b, c, d) \<in> set rows. d = 0 \<Longrightarrow> \<forall>(c', d') \<in> set (sweep cp 0 rows). d' = 0"
proof (induction rows arbitrary: cp)
  case Nil
  show ?case by simp
next
  case (Cons r rows)
  obtain a b c d where r: "r = (a, b, c, d)" by (cases r)
  from Cons.prems have "\<forall>(a, b, c, d) \<in> set rows. d = 0" and "d = 0"
    by (auto simp: r)
  with Cons.IH [of "c / (b - a * cp)"] show ?case
    by (simp add: r Let_def)
qed

lemma backsub_zero:
  "\<forall>(c, d) \<in> set l. d = 0 \<Longrightarrow> backsub l = replicate (length l) 0"
proof (induction l rule: backsub.induct)
  case (3 c d p r)
  then have "backsub (p # r) = replicate (length (p # r)) 0" by simp
  with 3(2) show ?case by (simp add: Let_def)
qed simp_all

lemma solve_zero:
  "\<forall>(a, b, c, d) \<in> set rows. d = 0 \<Longrightarrow> solve_banded rows = replicate (length rows) 0"
  using backsub_zero [OF sweep_zero, of rows 0] by (simp add: solve_banded_def)

lemma diff_replicate_Suc: "diff (replicate (Suc n) c) = replicate n 0"
  by (induction n) simp_all

lemma diff_replicate: "diff (replicate n c) = replicate (n - 1) 0"
  by (cases n) (simp_all add: diff_replicate_Suc del: replicate_Suc)

lemma spline_system_const:
  assumes "2 \<le> n" and "length x = n"
  shows "\<forall>(a, b, c, d) \<in> set (spline_system x (replicate n k)). d = 0"
proof -
  define slope where "slope = map2 (\<lambda>u v. u / v) (diff (replicate n k)) (diff x)"
  have "slope ! i = 0" if "i < n - 1" for i
    using that assms by (simp add: slope_def diff_replicate)
  then have z: "slope ! 0 = 0" "n \<noteq> 2 \<Longrightarrow> slope ! 1 = 0"
    "3 \<le> n \<Longrightarrow> slope ! (n - 3) = 0" "3 \<le> n \<Longrightarrow> slope ! (n - 2) = 0"
    "\<And>i. 1 \<le> i \<Longrightarrow> i < n - 1 \<Longrightarrow> slope ! (i - 1) = 0 \<and> slope ! i = 0"
    using assms by auto
  show ?thesis
    using assms z
    by (auto simp: spline_system_def Let_def slope_def [symmetric] diff_replicate)
qed


lemma hermite_piece_const:
  "hermite_piece (xa, k, 0) (xb, k, 0) = \<lparr>left = xa, c0 = 0, c1 = 0, c2 = 0, c3 = k\<rparr>"
  by (simp add: hermite_piece_def)

lemma call_const:
  "pieces \<noteq> [] \<Longrightarrow> \<forall>p \<in> set pieces. c0 p = 0 \<and> c1 p = 0 \<and> c2 p = 0 \<and> c3 p = k \<Longrightarrow>
     call pieces w = k"
  by (induction pieces w rule: call.induct) (auto simp: evaluate_poly_def)

lemma hermite_pieces_const:
  "\<forall>(x, y, s) \<in> set nodes. y = k \<and> s = 0 \<Longrightarrow>
     \<forall>p \<in> set (hermite_pieces nodes). c0 p = 0 \<and> c1 p = 0 \<and> c2 p = 0 \<and> c3 p = k"
  by (induction nodes rule: hermite_pieces.induct) (auto simp: hermite_piece_const)

lemma hermite_pieces_nonempty: "2 \<le> length nodes \<Longrightarrow> hermite_pieces nodes \<noteq> []"
  by (induction nodes rule: hermite_pieces.induct) auto

lemma CubicSpline_const:
  assumes "CubicSpline (map fst n) (map snd n) = Inr S" and "\<forall>(w, f) \<in> set n. f = k"
  shows "call S w = k"
proof -
  let ?x = "map fst n" and ?y = "map snd n"
  let ?s = "solve_banded (spline_system ?x ?y)"
  from assms(1) have len: "2 \<le> length n"
    and S: "S = hermite_pieces (zip ?x (zip ?y ?s))"
    by (auto simp: CubicSpline_samples split: if_splits)
  from assms(2) have y: "?y = replicate (length n) k"
    by (intro replicate_eqI) auto
  have "\<forall>(a, b, c, d) \<in> set (spline_system ?x ?y). d = 0"
    unfolding y using len by (intro spline_system_const) simp_all
  then have s: "?s = replicate (length n) 0"
    using len by (simp add: solve_zero length_spline_system)
  have "\<forall>(x, y, s) \<in> set (zip ?x (zip ?y ?s)). y = k \<and> s = 0"
    unfolding s unfolding y by (auto dest!: set_zip_rightD)
  then have "\<forall>p \<in> set S. c0 p = 0 \<and> c1 p = 0 \<and> c2 p = 0 \<and> c3 p = k"
    unfolding S by (rule hermite_pieces_const)
  moreover have "S \<noteq> []"
    unfolding S using len by (intro hermite_pieces_nonempty) (simp add: length_solve)
  ultimately show ?thesis by (intro call_const)
qed

subsection \<open>Which piece evaluates a wavelength\<close>

text \<open>
  Below the second breakpoint the spline is its first piece and from the last
  breakpoint on it is its last piece. At the left breakpoint of a piece it is that
  piece, evaluated at offset 0, which returns the constant coefficient: the flux of
  the node (the other coefficients are multiplied by 0, which leaves that flux as it
  is in float64 too, as long as they are finite). Every node but the last is the left
  breakpoint of a piece; the last node is evaluated at the right end of the last
  piece.
\<close>

lemma increasing_hd_le:
  "sorted_wrt (<) xs \<Longrightarrow> x \<in> set xs \<Longrightarrow> hd xs \<le> x" for x :: real
  by (cases xs) auto

lemma increasing_le_last:
  "sorted_wrt (<) xs \<Longrightarrow> x \<in> set xs \<Longrightarrow> x \<le> last xs" for x :: real
proof (induction xs)
  case Nil
  then show ?case by simp
next
  case (Cons a xs)
  show ?case
  proof (cases "xs = []")
    case True
    with Cons.prems show ?thesis by simp
  next
    case False
    then have l: "last xs \<in> set xs" by simp
    from Cons.prems(2) consider "x = a" | "x \<in> set xs" by auto
    then show ?thesis
    proof cases
      case 1
      from Cons.prems(1) have "\<forall>y \<in> set xs. a < y" by simp
      with l have "a < last xs" by blast
      with 1 False show ?thesis by simp
    next
      case 2
      with Cons False show ?thesis by simp
    qed
  qed
qed

lemma in_butlast:
  "x \<in> set xs \<Longrightarrow> fst x \<noteq> fst (last xs) \<Longrightarrow> x \<in> set (butlast xs)"
  by (induction xs) (auto split: if_splits)

lemma lefts_of_pieces:
  "map (\<lambda>p. (left p, c3 p)) S = butlast n \<Longrightarrow> map left S = butlast (map fst n)"
proof -
  assume "map (\<lambda>p. (left p, c3 p)) S = butlast n"
  then have "map fst (map (\<lambda>p. (left p, c3 p)) S) = map fst (butlast n)"
    by simp
  then show ?thesis
    by (simp add: map_butlast comp_def)
qed

lemma evaluate_poly_left: "evaluate_poly p (left p) = c3 p"
  by (simp add: evaluate_poly_def)

lemma call_first_piece:
  "S \<noteq> [] \<Longrightarrow> \<forall>p \<in> set (tl S). w < left p \<Longrightarrow> call S w = evaluate_poly (hd S) w"
  by (induction S w rule: call.induct) auto

lemma call_last_piece:
  "S \<noteq> [] \<Longrightarrow> \<forall>p \<in> set S. left p \<le> w \<Longrightarrow> call S w = evaluate_poly (last S) w"
  by (induction S w rule: call.induct) auto

lemma call_left_breakpoint:
  "sorted_wrt (<) (map left S) \<Longrightarrow> p \<in> set S \<Longrightarrow> call S (left p) = evaluate_poly p (left p)"
proof (induction S "left p" rule: call.induct)
  case (3 a q r)
  show ?case
  proof (cases "left p < left q")
    case True
    from 3(2) have "left q \<le> left t" if "t \<in> set (q # r)" for t
      using that by auto
    with True 3(3) have "p = a" by fastforce
    with True show ?thesis by simp
  next
    case False
    with 3(2,3) have "p \<in> set (q # r)" by auto
    moreover from 3(2) have "sorted_wrt (<) (map left (q # r))" by simp
    ultimately have "call (q # r) (left p) = evaluate_poly p (left p)"
      using 3(1) False by simp
    with False show ?thesis by simp
  qed
qed simp_all

lemma hermite_pieces_nodes:
  "map (\<lambda>p. (left p, c3 p)) (hermite_pieces nodes) = butlast (map (\<lambda>(x, y, s). (x, y)) nodes)"
proof (induction nodes rule: hermite_pieces.induct)
  case (1 a b r)
  obtain xa ya sa where a: "a = (xa, ya, sa)" by (cases a)
  obtain xb yb sb where b: "b = (xb, yb, sb)" by (cases b)
  from 1 show ?case by (simp add: a b hermite_piece_def Let_def)
qed simp_all

lemma CubicSpline_pieces:
  assumes "CubicSpline (map fst n) (map snd n) = Inr S"
  shows "map (\<lambda>p. (left p, c3 p)) S = butlast n"
    and "sorted_wrt (<) (map fst n)" and "2 \<le> length n" and "S \<noteq> []"
proof -
  let ?x = "map fst n" and ?y = "map snd n"
  let ?s = "solve_banded (spline_system ?x ?y)"
  from assms show len: "2 \<le> length n" and "sorted_wrt (<) ?x"
    by (auto simp: CubicSpline_samples split: if_splits)
  from assms have S: "S = hermite_pieces (zip ?x (zip ?y ?s))"
    by (auto simp: CubicSpline_samples split: if_splits)
  have ls: "length ?s = length n"
    using len by (simp add: length_solve)
  have "map (\<lambda>(x, y, s). (x, y)) (zip ?x (zip ?y ?s)) = n"
    using ls by (intro nth_equalityI) simp_all
  then show "map (\<lambda>p. (left p, c3 p)) S = butlast n"
    unfolding S hermite_pieces_nodes by simp
  show "S \<noteq> []"
    unfolding S using len ls by (intro hermite_pieces_nonempty) simp
qed

lemma increasing_butlast_less_last:
  "sorted_wrt (<) xs \<Longrightarrow> x \<in> set (butlast xs) \<Longrightarrow> x < last xs" for x :: real
proof (induction xs)
  case Nil
  then show ?case by simp
next
  case (Cons a xs)
  show ?case
  proof (cases "xs = []")
    case True
    with Cons.prems show ?thesis by simp
  next
    case False
    then have l: "last xs \<in> set xs" by simp
    from Cons.prems(2) False consider "x = a" | "x \<in> set (butlast xs)" by auto
    then show ?thesis
    proof cases
      case 1
      from Cons.prems(1) have "\<forall>y \<in> set xs. a < y" by simp
      with l have "a < last xs" by blast
      with 1 False show ?thesis by simp
    next
      case 2
      with Cons False show ?thesis by simp
    qed
  qed
qed

lemma call_last_node:
  assumes "CubicSpline (map fst n) (map snd n) = Inr S"
  shows "call S (fst (last n)) = evaluate_poly (last S) (fst (last n))"
    and "left (last S) < fst (last n)"
proof -
  note pieces = CubicSpline_pieces [OF assms]
  have lefts: "map left S = butlast (map fst n)"
    using pieces(1) by (rule lefts_of_pieces)
  from pieces(3) have ne: "n \<noteq> []"
    by auto
  have less: "left p < fst (last n)" if "p \<in> set S" for p
  proof -
    from that have "left p \<in> set (map left S)" by simp
    then have "left p \<in> set (butlast (map fst n))" by (simp only: lefts)
    with pieces(2) have "left p < last (map fst n)"
      by (rule increasing_butlast_less_last)
    with ne show ?thesis by (simp add: last_map)
  qed
  from pieces(4) have "last S \<in> set S" by simp
  then show "left (last S) < fst (last n)" by (rule less)
  have "\<forall>p \<in> set S. left p \<le> fst (last n)"
    using less by (auto intro: less_imp_le)
  with pieces(4) show "call S (fst (last n)) = evaluate_poly (last S) (fst (last n))"
    by (rule call_last_piece)
qed
subsection \<open>Evaluation on a given spectrum\<close>

lemma restwave_Cons [simp]: "restwave [] = []" "restwave (w # r) = w / (1 + z) # restwave r"
  by (simp_all add: restwave_def)

lemma two_nodes:
  "x0 < x1 \<Longrightarrow> np_all_isfinite [x0, x1, y0, y1, (y1 - y0) / (x1 - x0)] \<Longrightarrow>
   CubicSpline [x0, x1] [y0, y1] =
     Inr [hermite_piece (x0, y0, (y1 - y0) / (x1 - x0)) (x1, y1, (y1 - y0) / (x1 - x0))]"
  by (simp add: CubicSpline_def spline_system_def solve_banded_def)

subsection \<open>The quadrature of finite values\<close>

lemma trapezoid_zero:
  "\<forall>(x, y) \<in> set l. y = Fin 0 \<Longrightarrow> trapezoid_rule l = Fin 0"
  by (induction l rule: trapezoid_rule.induct) auto


subsection \<open>A line added to a spectrum\<close>






lemma ew_no_line:
  assumes "cs wave flux = Inr S"
    and "\<forall>(w, f) \<in> set (line_samples wave flux). f = call S w \<and> call S w \<noteq> 0"
  shows "ew wave flux = Inr (Fin 0)"
proof -
  have "\<forall>(x, y) \<in> set (map (\<lambda>(w, f). (w, fdiv (Fin (f - call S w)) (Fin (call S w))))
                           (line_samples wave flux)). y = Fin 0"
    using assms(2) by auto
  then have "spec_equivalent_width S (line_samples wave flux) = Fin 0"
    unfolding spec_equivalent_width_def by (rule trapezoid_zero)
  with assms(1) show ?thesis by (simp add: ew_spec andthen_def)
qed

lemma seven_samples:
  "restwave [5060.9377, 5081.9811, 5103.0245, 5113.5462, 5115.65054, 5124.0679, 5145.1113]
     = [4810, 4830, 4850, 4860, 4862, 4870, 4890]"
  by (simp add: z_def)

lemma five_nodes_on_a_line:
  "CubicSpline [4810, 4830, 4850, 4870, 4890] [1, 3, 5, 7, 9] =
     Inr [\<lparr>left = 4810, c0 = 0, c1 = 0, c2 = 1 / 10, c3 = 1\<rparr>,
          \<lparr>left = 4830, c0 = 0, c1 = 0, c2 = 1 / 10, c3 = 3\<rparr>,
          \<lparr>left = 4850, c0 = 0, c1 = 0, c2 = 1 / 10, c3 = 5\<rparr>,
          \<lparr>left = 4870, c0 = 0, c1 = 0, c2 = 1 / 10, c3 = 7\<rparr>]"
  by (simp add: CubicSpline_def spline_system_def solve_banded_def hermite_piece_def
        upt_rec nth_Cons')

lemma seven_samples_line_free:
  "cs [5060.9377, 5081.9811, 5103.0245, 5113.5462, 5115.65054, 5124.0679, 5145.1113]
      [1, 3, 5, 6, 6.2, 7, 9]
     = Inr [\<lparr>left = 4810, c0 = 0, c1 = 0, c2 = 1 / 10, c3 = 1\<rparr>,
            \<lparr>left = 4830, c0 = 0, c1 = 0, c2 = 1 / 10, c3 = 3\<rparr>,
            \<lparr>left = 4850, c0 = 0, c1 = 0, c2 = 1 / 10, c3 = 5\<rparr>,
            \<lparr>left = 4870, c0 = 0, c1 = 0, c2 = 1 / 10, c3 = 7\<rparr>]"
  "line_samples [5060.9377, 5081.9811, 5103.0245, 5113.5462, 5115.65054, 5124.0679, 5145.1113]
      [1, 3, 5, 6, 6.2, 7, 9] = [(4860, 6), (4862, 6.2)]"
proof -
  let ?W = "[5060.9377, 5081.9811, 5103.0245, 5113.5462, 5115.65054, 5124.0679, 5145.1113]
              :: real list"
  let ?F = "[1, 3, 5, 6, 6.2, 7, 9] :: real list"
  have cont: "continuum_samples ?W ?F = [(4810, 1), (4830, 3), (4850, 5), (4870, 7), (4890, 9)]"
    unfolding continuum_samples_def seven_samples by (simp add: iwave_noline_def)
  show "line_samples ?W ?F = [(4860, 6), (4862, 6.2)]"
    unfolding line_samples_def seven_samples by (simp add: iwave_lineonly_def)
  show "cs ?W ?F = Inr [\<lparr>left = 4810, c0 = 0, c1 = 0, c2 = 1 / 10, c3 = 1\<rparr>,
            \<lparr>left = 4830, c0 = 0, c1 = 0, c2 = 1 / 10, c3 = 3\<rparr>,
            \<lparr>left = 4850, c0 = 0, c1 = 0, c2 = 1 / 10, c3 = 5\<rparr>,
            \<lparr>left = 4870, c0 = 0, c1 = 0, c2 = 1 / 10, c3 = 7\<rparr>]"
    unfolding cs_eq cont by (simp add: five_nodes_on_a_line)
qed

lemma seven_samples_ew:
  "ew [5060.9377, 5081.9811, 5103.0245, 5113.5462, 5115.65054, 5124.0679, 5145.1113]
      [1, 3, 5, 12, 9.3, 7, 9] = Inr (Fin (3 / 2))"
proof -
  let ?W = "[5060.9377, 5081.9811, 5103.0245, 5113.5462, 5115.65054, 5124.0679, 5145.1113]
              :: real list"
  let ?F = "[1, 3, 5, 12, 9.3, 7, 9] :: real list"
  have cont: "continuum_samples ?W ?F = [(4810, 1), (4830, 3), (4850, 5), (4870, 7), (4890, 9)]"
    unfolding continuum_samples_def seven_samples by (simp add: iwave_noline_def)
  have line: "line_samples ?W ?F = [(4860, 12), (4862, 9.3)]"
    unfolding line_samples_def seven_samples by (simp add: iwave_lineonly_def)
  show ?thesis
    unfolding ew_eq cs_eq cont line
    by (simp add: five_nodes_on_a_line andthen_def evaluate_poly_def)
qed

subsection \<open>The assignments compute the variables\<close>

lemma exec_Hbeta_cells:
  assumes "exec Hbeta_cells s = (s', r)"
  shows "nb_wave s' = nb_wave s \<and> nb_flux s' = nb_flux s
   \<and> (case r of
        Some e \<Rightarrow> ew (nb_wave s) (nb_flux s) = Inl e
      | None \<Rightarrow> cs (nb_wave s) (nb_flux s) = Inr (nb_cs s')
             \<and> linesub (nb_wave s) (nb_flux s) = Inr (nb_linesub s')
             \<and> ew (nb_wave s) (nb_flux s) = Inr (nb_ew s'))"
proof (cases "length (nb_flux s) = length (nb_wave s)")
  case False
  then have "plot_wave_flux s = Inl ValueError"
    by (auto simp: plot_wave_flux_def plot_def andthen_def)
  then have "exec Hbeta_cells s = (s, Some ValueError)"
    by (simp add: Hbeta_cells_def)
  moreover have "ew (nb_wave s) (nb_flux s) = Inl ValueError"
    using False by (simp add: ew_eq cs_eq andthen_def)
  ultimately show ?thesis
    using assms by auto
next
  case True
  let ?rw = "restwave (nb_wave s)"
  let ?s1 = "s\<lparr>nb_z := z, nb_restwave := ?rw, nb_iwave := map iwave ?rw,
               nb_iwave_noline := map iwave_noline ?rw\<rparr>"
  let ?xc = "filter iwave_noline ?rw"
  let ?yc = "map snd (filter (\<lambda>(w, f). iwave_noline w) (zip ?rw (nb_flux s)))"
  note sel = index_restwave index_flux [of "nb_flux s"] plot_selected plot_spline
  have p: "plot (nb_wave s) (nb_flux s) = Inr ()"
    using True by (simp add: plot_def)
  have prefix: "exec Hbeta_cells s =
      exec [assign_cs, plot_spectrum, plot_continuum,
            assign_iwave_lineonly, assign_linesub, assign_ew] ?s1"
    using True
    by (simp add: Hbeta_cells_def plot_wave_flux_def p assign_z_def assign_restwave_def
          assign_iwave_def plot_spectrum_def assign_iwave_noline_def andthen_def
          restwave_def [symmetric] sel)
  have c: "cs (nb_wave s) (nb_flux s) = CubicSpline ?xc ?yc"
    using True by (simp add: cs_def p andthen_def Let_def sel)
  have a: "assign_cs ?s1 = andthen (CubicSpline ?xc ?yc) (\<lambda>S. Inr (?s1\<lparr>nb_cs := S\<rparr>))"
    using True by (simp add: assign_cs_def andthen_def sel)
  show ?thesis
  proof (cases "CubicSpline ?xc ?yc")
    case (Inl e)
    then have "exec Hbeta_cells s = (?s1, Some e)"
      unfolding prefix by (simp add: a andthen_def)
    moreover have "ew (nb_wave s) (nb_flux s) = Inl e"
      using Inl by (simp add: ew_def c andthen_def)
    ultimately show ?thesis
      using assms by auto
  next
    case (Inr S)
    let ?xl = "filter iwave_lineonly ?rw"
    let ?fl = "map snd (filter (\<lambda>(w, f). iwave_lineonly w) (zip ?rw (nb_flux s)))"
    let ?ls = "map2 (\<lambda>f c. f - c) ?fl (map (call S) ?xl)"
    let ?v = "trapz (map2 (\<lambda>l c. fdiv (Fin l) (Fin c)) ?ls (map (call S) ?xl)) ?xl"
    have l: "linesub (nb_wave s) (nb_flux s) = Inr ?ls"
      using True Inr by (simp add: linesub_def c andthen_def Let_def sel del: map_map)
    have e: "ew (nb_wave s) (nb_flux s) = Inr ?v"
      using True Inr by (simp add: ew_def c l andthen_def Let_def sel del: map_map fdiv.simps)
    have "exec Hbeta_cells s =
            (?s1\<lparr>nb_cs := S, nb_iwave_lineonly := map iwave_lineonly ?rw,
                  nb_linesub := ?ls, nb_ew := ?v\<rparr>, None)"
      unfolding prefix using True Inr
      by (simp add: a andthen_def plot_spectrum_def plot_continuum_def
            assign_iwave_lineonly_def assign_linesub_def assign_ew_def sel
            del: map_map fdiv.simps)
    with assms c l e Inr show ?thesis
      by auto
  qed
qed

lemma four_samples_ew:
  "ew [5051.46817, 5113.5462, 5114.59837, 5154.58083] [1, 2, 3, 1] = Inr (Fin (3 / 2))"
proof -
  let ?W = "[5051.46817, 5113.5462, 5114.59837, 5154.58083] :: real list"
  let ?F = "[1, 2, 3, 1] :: real list"
  have rest: "restwave ?W = [4801, 4860, 4861, 4899]"
    by (simp add: z_def)
  have cont: "continuum_samples ?W ?F = [(4801, 1), (4899, 1)]"
    unfolding continuum_samples_def rest by (simp add: iwave_noline_def)
  have line: "line_samples ?W ?F = [(4860, 2), (4861, 3)]"
    unfolding line_samples_def rest by (simp add: iwave_lineonly_def)
  show ?thesis
    unfolding ew_eq cs_eq cont line
    by (simp add: two_nodes andthen_def hermite_piece_def evaluate_poly_def)
qed

lemma exec_Hbeta_cells_value:
  assumes "ew (nb_wave s) (nb_flux s) = Inr v"
  shows "snd (exec Hbeta_cells s) = None \<and> nb_ew (fst (exec Hbeta_cells s)) = v"
proof -
  obtain t r where e: "exec Hbeta_cells s = (t, r)" by (cases "exec Hbeta_cells s")
  from exec_Hbeta_cells [OF e] assms show ?thesis
    by (cases r) (auto simp: e)
qed

subsection \<open>The elimination solves the spline's system\<close>

lemma sweep_nonempty [simp]: "sweep cp dp rows = [] \<longleftrightarrow> rows = []"
  by (cases rows) (auto simp: Let_def)

lemma backsub_nonempty [simp]: "backsub l = [] \<longleftrightarrow> l = []"
  by (induction l rule: backsub.induct) (auto simp: Let_def)

lemma elimination_solves:
  "pivots cp rows \<Longrightarrow> rows \<noteq> [] \<Longrightarrow> ss = backsub (sweep cp dp rows) \<Longrightarrow>
     solves (dp - cp * hd ss) rows ss"
proof (induction rows arbitrary: cp dp ss)
  case Nil
  then show ?case by simp
next
  case (Cons r rows)
  obtain a b c d where r: "r = (a, b, c, d)" by (cases r)
  define m where "m = b - a * cp"
  define c' where "c' = c / m"
  define d' where "d' = (d - a * dp) / m"
  from Cons.prems(1) have m: "m \<noteq> 0" and piv: "pivots c' rows"
    by (simp_all add: r m_def c'_def)
  have sw: "sweep cp dp (r # rows) = (c', d') # sweep c' d' rows"
    by (simp add: r Let_def m_def c'_def d'_def)
  have md: "m * d' = d - a * dp"
    using m by (simp add: d'_def)
  have mc: "m * c' = c"
    using m by (simp add: c'_def)
  show ?case
  proof (cases rows)
    case Nil
    then have ss: "ss = [d']"
      using Cons.prems(3) sw by simp
    have "a * (dp - cp * d') + b * d' = a * dp + m * d'"
      by (simp add: m_def algebra_simps)
    then show ?thesis
      using md by (simp add: ss r Nil)
  next
    case (Cons r' rows')
    define ss' where "ss' = backsub (sweep c' d' rows)"
    have ne: "ss' \<noteq> []"
      by (simp add: ss'_def Cons)
    then obtain t ts where ss': "ss' = t # ts" by (cases ss') auto
    have "sweep c' d' rows \<noteq> []" by (simp add: Cons)
    then obtain p ps where sw': "sweep c' d' rows = p # ps" by (cases "sweep c' d' rows") auto
    have ss: "ss = (d' - c' * t) # ss'"
      using Cons.prems(3) sw sw' ss' by (simp add: ss'_def Let_def)
    have IH: "solves (d' - c' * hd ss') rows ss'"
      using Cons.IH [OF piv _ ss'_def] Cons by simp
    have "a * (dp - cp * (d' - c' * t)) + b * (d' - c' * t) + c * t
            = a * dp + m * d' - m * c' * t + c * t"
      by (simp add: m_def algebra_simps)
    also have "\<dots> = d"
      using md mc by simp
    finally show ?thesis
      using IH by (simp add: ss r ss')
  qed
qed

lemma elimination_unique:
  "pivots cp rows \<Longrightarrow> rows \<noteq> [] \<Longrightarrow> solves sp rows ss \<Longrightarrow> sp = dp - cp * hd ss \<Longrightarrow>
     ss = backsub (sweep cp dp rows)"
proof (induction rows arbitrary: cp dp ss sp)
  case Nil
  then show ?case by simp
next
  case (Cons r rows)
  obtain a b c d where r: "r = (a, b, c, d)" by (cases r)
  define m where "m = b - a * cp"
  define c' where "c' = c / m"
  define d' where "d' = (d - a * dp) / m"
  from Cons.prems(1) have m: "m \<noteq> 0" and piv: "pivots c' rows"
    by (simp_all add: r m_def c'_def)
  have sw: "sweep cp dp (r # rows) = (c', d') # sweep c' d' rows"
    by (simp add: r Let_def m_def c'_def d'_def)
  from Cons.prems(3) obtain s ss' where ss: "ss = s # ss'"
    by (cases ss) (auto simp: r)
  show ?case
  proof (cases rows)
    case Nil
    with Cons.prems(3) have "ss' = []" and eq: "a * sp + b * s = d"
      by (auto simp: ss r)
    from eq Cons.prems(4) have "m * s = d - a * dp"
      by (simp add: ss m_def algebra_simps)
    then have "s = d'"
      unfolding d'_def using m by (metis nonzero_mult_div_cancel_left)
    with \<open>ss' = []\<close> show ?thesis
      using sw by (simp add: ss Nil)
  next
    case (Cons r' rows')
    from Cons.prems(3) Cons obtain t ts where ss': "ss' = t # ts"
      and eq: "a * sp + b * s + c * t = d" and rest: "solves s rows ss'"
      by (cases ss'; cases r') (auto simp: ss r)
    from eq Cons.prems(4) have "m * s = d - a * dp - c * t"
      by (simp add: ss m_def algebra_simps)
    then have "s = (d - a * dp - c * t) / m"
      using m by (metis nonzero_mult_div_cancel_left)
    then have s: "s = d' - c' * t"
      by (simp add: d'_def c'_def diff_divide_distrib)
    then have bs: "backsub (sweep c' d' rows) = t # ts"
      using Cons.IH [OF piv _ rest, of d'] Cons ss' by simp
    have "sweep c' d' rows \<noteq> []" by (simp add: Cons)
    then obtain p ps where sw': "sweep c' d' rows = p # ps"
      by (cases "sweep c' d' rows") auto
    from bs have "backsub (p # ps) = t # ts"
      by (simp add: sw')
    then show ?thesis
      using s sw by (simp add: ss ss' sw' Let_def)
  qed
qed

lemma solve_banded_iff:
  "pivots 0 rows \<Longrightarrow> solves 0 rows ss \<longleftrightarrow> ss = solve_banded rows"
proof (cases rows)
  case Nil
  then show ?thesis by (simp add: solve_banded_def)
next
  case (Cons r rows')
  assume "pivots 0 rows"
  then show ?thesis
    using elimination_solves [of 0 rows ss 0] elimination_unique [of 0 rows 0 ss 0] Cons
    by (auto simp: solve_banded_def)
qed

lemma diff_nth: "Suc j < length x \<Longrightarrow> diff x ! j = x ! Suc j - x ! j"
  by (simp add: diff_def nth_tl nth_butlast)

lemma diff_pos: "sorted_wrt (<) x \<Longrightarrow> Suc j < length x \<Longrightarrow> 0 < diff x ! j"
  by (simp add: diff_nth sorted_wrt_iff_nth_less)

lemma pivots_middle:
  fixes dx :: "nat \<Rightarrow> real"
  assumes pos: "\<forall>j < n - 1. 0 < dx j"
  shows "3 \<le> i \<Longrightarrow> i \<le> n - 1 \<Longrightarrow> 0 < cp \<Longrightarrow> cp * (dx (i - 2) + dx (i - 1)) < dx (i - 2) \<Longrightarrow>
     pivots cp (map (\<lambda>i. (dx i, 2 * (dx (i - 1) + dx i), dx (i - 1), rhs i)) [i ..< n - 1]
                @ [(dx (n - 3) + dx (n - 2), dx (n - 3), 0, rl)])"
proof (induction "n - 1 - i" arbitrary: i cp)
  case 0
  then have i: "i = n - 1" by simp
  with 0 have "n - 3 = i - 2" "n - 2 = i - 1" by auto
  with 0(5) have "0 < dx (n - 3) - (dx (n - 3) + dx (n - 2)) * cp"
    by (simp add: algebra_simps)
  then show ?case by (simp add: i)
next
  case (Suc k)
  then have i: "i < n - 1" by simp
  then have upt: "[i ..< n - 1] = i # [Suc i ..< n - 1]"
    by (simp add: upt_rec)
  define A where "A = dx (i - 2)"
  define B where "B = dx (i - 1)"
  define C where "C = dx i"
  from Suc(3) i pos have p: "0 < A" "0 < B" "0 < C"
    by (auto simp: A_def B_def C_def)
  define m where "m = 2 * (B + C) - C * cp"
  have "0 < cp * B"
    using Suc(5) p(2) by simp
  moreover have "cp * A + cp * B < A"
    using Suc(6) by (simp add: algebra_simps A_def B_def)
  ultimately have "cp * A < A"
    by argo
  then have "cp < 1"
    using p(1) by simp
  then have "C * cp < C"
    using p(3) by simp
  then have m: "B + C < m"
    unfolding m_def using p by argo
  then have m0: "0 < m" using p by linarith
  have c1: "0 < B / m"
    using p m0 by simp
  have "B * (B + C) < B * m"
    using m p(2) by simp
  then have c2: "B / m * (B + C) < B"
    using m0 by (simp add: field_simps)
  have "pivots (dx (i - 1) / m)
          (map (\<lambda>i. (dx i, 2 * (dx (i - 1) + dx i), dx (i - 1), rhs i)) [Suc i ..< n - 1]
           @ [(dx (n - 3) + dx (n - 2), dx (n - 3), 0, rl)])"
  proof (rule Suc(1))
    show "k = n - 1 - Suc i" using Suc(2) by simp
    show "3 \<le> Suc i" using Suc(3) by simp
    show "Suc i \<le> n - 1" using i by simp
    show "0 < dx (i - 1) / m" using c1 by (simp add: B_def)
    show "dx (i - 1) / m * (dx (Suc i - 2) + dx (Suc i - 1)) < dx (Suc i - 2)"
      using c2 Suc(3) by (simp add: numeral_2_eq_2 Suc_diff_Suc B_def C_def)
  qed
  then show ?case
    unfolding upt using m0 by (simp add: m_def B_def C_def)
qed


lemma spline_pivots:
  assumes inc: "sorted_wrt (<) x" and len: "2 \<le> length x"
  shows "pivots 0 (spline_system x y)"
proof -
  define n where "n = length x"
  define D where "D j = diff x ! j" for j
  have pos: "\<forall>j < n - 1. 0 < D j"
    using inc by (auto simp: D_def n_def intro: diff_pos)
  have "n = 2 \<or> n = 3 \<or> 4 \<le> n"
    using len by (auto simp: n_def)
  then consider "n = 2" | "n = 3" | "4 \<le> n"
    by blast
  then show ?thesis
  proof cases
    case 1
    then show ?thesis by (simp add: spline_system_def n_def Let_def)
  next
    case 2
    with pos have "0 < D 0" "0 < D 1" by auto
    then have "0 < 2 * (D 0 + D 1) - D 1" "D 0 < 2 * (D 0 + D 1) - D 1"
      by auto
    with 2 show ?thesis
      by (simp add: spline_system_def n_def [symmetric] D_def [symmetric] Let_def)
  next
    case 3
    with pos have p: "0 < D 0" "0 < D 1" "0 < D 2" by auto
    have d0: "x ! 2 - x ! 0 = D 0 + D 1"
      using 3 by (simp add: D_def diff_nth n_def numeral_2_eq_2)
    have dn: "x ! (n - 1) - x ! (n - 3) = D (n - 3) + D (n - 2)"
    proof -
      have "Suc (n - 3) = n - 2" "Suc (n - 2) = n - 1" using 3 by auto
      moreover have "Suc (n - 3) < length x" "Suc (n - 2) < length x"
        using 3 by (auto simp: n_def)
      ultimately show ?thesis
        by (simp add: D_def diff_nth)
    qed
    have upt: "[1 ..< n - 1] = 1 # 2 # [3 ..< n - 1]"
      using 3 by (simp add: upt_rec numeral_3_eq_3 numeral_2_eq_2)
    define f where "f = (\<lambda>i. (D i, 2 * (D (i - 1) + D i), D (i - 1),
        3 * (D i * (map2 (\<lambda>u v. u / v) (diff y) (diff x)) ! (i - 1)
           + D (i - 1) * (map2 (\<lambda>u v. u / v) (diff y) (diff x)) ! i)))"
    obtain b0 bl where sys: "spline_system x y =
        (0, D 1, D 0 + D 1, b0) # map f [1 ..< n - 1] @ [(D (n - 3) + D (n - 2), D (n - 3), 0, bl)]"
      using 3 d0 dn
      by (simp add: spline_system_def n_def [symmetric] D_def [symmetric] Let_def f_def)
    define cp1 where "cp1 = D 0 / (D 0 + D 1)"
    define m2 where "m2 = 2 * (D 1 + D 2) - D 2 * cp1"
    have m1: "2 * (D 0 + D 1) - D 1 * ((D 0 + D 1) / D 1) = D 0 + D 1"
      using p by simp
    have "cp1 < 1" "0 < cp1"
      using p by (simp_all add: cp1_def)
    then have "D 2 * cp1 < D 2"
      using p(3) by simp
    then have m2: "D 1 + D 2 < m2"
      unfolding m2_def using p by argo
    then have m20: "0 < m2" using p by linarith
    have "D 1 * (D 1 + D 2) < D 1 * m2"
      using m2 p(2) by simp
    then have c2: "D 1 / m2 * (D 1 + D 2) < D 1"
      using m20 by (simp add: field_simps)
    have "pivots (D 1 / m2)
            (map (\<lambda>i. (D i, 2 * (D (i - 1) + D i), D (i - 1),
                3 * (D i * (map2 (\<lambda>u v. u / v) (diff y) (diff x)) ! (i - 1)
                   + D (i - 1) * (map2 (\<lambda>u v. u / v) (diff y) (diff x)) ! i)))
               [3 ..< n - 1]
             @ [(D (n - 3) + D (n - 2), D (n - 3), 0, bl)])"
      using pos
    proof (rule pivots_middle)
      show "3 \<le> (3::nat)" by simp
      show "3 \<le> n - 1" using 3 by simp
      show "0 < D 1 / m2" using p m20 by simp
      show "D 1 / m2 * (D (3 - 2) + D (3 - 1)) < D (3 - 2)"
        using c2 by (simp add: numeral_3_eq_3 numeral_2_eq_2)
    qed
    then have R: "pivots (D 1 / m2) (map f [3 ..< n - 1]
                 @ [(D (n - 3) + D (n - 2), D (n - 3), 0, bl)])"
      by (simp add: f_def)
    obtain b1 where f1: "f 1 = (D 1, 2 * (D 0 + D 1), D 0, b1)"
      by (simp add: f_def)
    obtain b2 where f2: "f 2 = (D 2, 2 * (D 1 + D 2), D 1, b2)"
      by (simp add: f_def)
    have step2: "pivots cp1 (f 2 # map f [3 ..< n - 1]
                   @ [(D (n - 3) + D (n - 2), D (n - 3), 0, bl)])"
      unfolding f2 append_Cons pivots.simps m2_def [symmetric] using m20 R by blast
    have step1: "pivots ((D 0 + D 1) / D 1) (f 1 # f 2 # map f [3 ..< n - 1]
                   @ [(D (n - 3) + D (n - 2), D (n - 3), 0, bl)])"
      unfolding f1 append_Cons pivots.simps m1 cp1_def [symmetric]
      using p step2 by simp
    have e: "D 1 - 0 * 0 = D 1" by simp
    show ?thesis
      unfolding sys upt list.map append_Cons pivots.simps e
      using p(2) step1 by simp
  qed
qed

lemma spline_system_solved:
  "sorted_wrt (<) x \<Longrightarrow> 2 \<le> length x \<Longrightarrow>
     solves 0 (spline_system x y) s \<longleftrightarrow> s = solve_banded (spline_system x y)"
  by (rule solve_banded_iff) (rule spline_pivots)

section \<open>The claims\<close>

subsection \<open>C1: the continuum windows and the line window\<close>

text \<open>
  C1, as stated, fails: the rest wavelength 4855 is selected by the continuum mask
  \<open>iwave_noline\<close> and by the line mask \<open>iwave_lineonly\<close>.
\<close>

theorem noline_overlaps_lineonly:
  "iwave_noline 4855 \<and> iwave_lineonly 4855"
  by (simp add: iwave_noline_def iwave_lineonly_def)

text \<open>
  C1, as amended. What the continuum mask excludes is the core of the line window: a
  sample selected by \<open>iwave_noline\<close> has its rest wavelength in (4800, 4900) and never
  in the closed interval [4858, 4865].
\<close>

theorem noline_excludes_line_core:
  "iwave_noline w \<Longrightarrow> \<not> (4858 \<le> w \<and> w \<le> 4865) \<and> iwave w"
  by (auto simp: iwave_noline_def iwave_def)

theorem noline_excludes_line_core_witness:
  "iwave_noline 4855 \<and> \<not> (4858 \<le> (4855::real) \<and> (4855::real) \<le> 4865) \<and> iwave 4855"
  using noline_excludes_line_core [of 4855] by (simp add: iwave_noline_def)

subsection \<open>C2: the equivalent width is the trapezoidal integral\<close>

text \<open>
  C2. Whenever the computation returns a value, the spline through the continuum
  samples exists and the value is the trapezoidal-rule integral, over the line
  samples, of the flux minus the spline, divided by the spline.
\<close>

theorem ew_is_trapezoid_integral:
  "ew wave flux = Inr v \<Longrightarrow>
     \<exists>S. CubicSpline (map fst (continuum_samples wave flux))
                      (map snd (continuum_samples wave flux)) = Inr S
       \<and> v = spec_equivalent_width S (line_samples wave flux)"
  by (auto simp: ew_spec cs_eq andthen_def split: sum.splits if_splits)

theorem ew_is_trapezoid_integral_witness:
  "ew [5060.9377, 5081.9811, 5103.0245, 5113.5462, 5115.65054, 5124.0679, 5145.1113]
      [1, 3, 5, 12, 9.3, 7, 9] = Inr (Fin (3 / 2))
   \<and> (\<exists>S. CubicSpline
             (map fst (continuum_samples
                [5060.9377, 5081.9811, 5103.0245, 5113.5462, 5115.65054, 5124.0679, 5145.1113]
                [1, 3, 5, 12, 9.3, 7, 9]))
             (map snd (continuum_samples
                [5060.9377, 5081.9811, 5103.0245, 5113.5462, 5115.65054, 5124.0679, 5145.1113]
                [1, 3, 5, 12, 9.3, 7, 9]))
             = Inr S
          \<and> Fin (3 / 2) = spec_equivalent_width S
               (line_samples
                  [5060.9377, 5081.9811, 5103.0245, 5113.5462, 5115.65054, 5124.0679, 5145.1113]
                  [1, 3, 5, 12, 9.3, 7, 9]))"
  using ew_is_trapezoid_integral
    [of "[5060.9377, 5081.9811, 5103.0245, 5113.5462, 5115.65054, 5124.0679, 5145.1113]"
        "[1, 3, 5, 12, 9.3, 7, 9]" "Fin (3 / 2)"] seven_samples_ew
  by simp

subsection \<open>C3: a continuum that is zero in the line window\<close>

text \<open>
  C3, as amended. Where the spline is zero at a line sample, nothing is raised: the
  elementwise division yields an infinity or a nan there and the computation returns a
  value. With at least two line samples the returned equivalent width is not finite
  (with one line sample the quadrature has no interval and returns 0).
\<close>

theorem zero_continuum_not_raised:
  assumes "cs wave flux = Inr S"
    and "(w, f) \<in> set (line_samples wave flux)"
    and "call S w = 0"
  shows "\<exists>v. ew wave flux = Inr v \<and> (2 \<le> length (line_samples wave flux) \<longrightarrow> \<not> isfinite v)"
proof -
  let ?l = "map (\<lambda>(w, f). (w, fdiv (Fin (f - call S w)) (Fin (call S w))))
              (line_samples wave flux)"
  have v: "ew wave flux = Inr (trapezoid_rule ?l)"
    using assms(1) by (simp add: ew_spec andthen_def spec_equivalent_width_def)
  have "(w, fdiv (Fin (f - call S w)) (Fin (call S w))) \<in> set ?l"
    using assms(2) by force
  moreover have "\<not> isfinite (fdiv (Fin (f - call S w)) (Fin (call S w)))"
    unfolding assms(3) by (rule fdiv_zero_not_finite)
  ultimately have "\<exists>(x, y) \<in> set ?l. \<not> isfinite y"
    by blast
  then have "2 \<le> length ?l \<longrightarrow> \<not> isfinite (trapezoid_rule ?l)"
    using trapezoid_not_finite [of ?l] by blast
  with v show ?thesis by simp
qed

text \<open>
  A spectrum whose continuum samples have flux 0: the spline is zero and the line
  samples have flux 1.
\<close>

lemma zero_continuum_example:
  "cs [5051.46817, 5113.5462, 5114.59837, 5154.58083] [0, 1, 1, 0]
     = Inr [\<lparr>left = 4801, c0 = 0, c1 = 0, c2 = 0, c3 = 0\<rparr>]"
  "line_samples [5051.46817, 5113.5462, 5114.59837, 5154.58083] [0, 1, 1, 0]
     = [(4860, 1), (4861, 1)]"
proof -
  let ?W = "[5051.46817, 5113.5462, 5114.59837, 5154.58083] :: real list"
  let ?F = "[0, 1, 1, 0] :: real list"
  have rest: "restwave ?W = [4801, 4860, 4861, 4899]"
    by (simp add: z_def)
  have cont: "continuum_samples ?W ?F = [(4801, 0), (4899, 0)]"
    unfolding continuum_samples_def rest by (simp add: iwave_noline_def)
  show "line_samples ?W ?F = [(4860, 1), (4861, 1)]"
    unfolding line_samples_def rest by (simp add: iwave_lineonly_def)
  show "cs ?W ?F = Inr [\<lparr>left = 4801, c0 = 0, c1 = 0, c2 = 0, c3 = 0\<rparr>]"
    unfolding cs_eq cont by (simp add: two_nodes hermite_piece_def)
qed

theorem zero_continuum_not_raised_witness:
  "cs [5051.46817, 5113.5462, 5114.59837, 5154.58083] [0, 1, 1, 0]
     = Inr [\<lparr>left = 4801, c0 = 0, c1 = 0, c2 = 0, c3 = 0\<rparr>]
   \<and> (4860, 1) \<in> set (line_samples [5051.46817, 5113.5462, 5114.59837, 5154.58083] [0, 1, 1, 0])
   \<and> call [\<lparr>left = 4801, c0 = 0, c1 = 0, c2 = 0, c3 = 0\<rparr>] 4860 = 0
   \<and> 2 \<le> length (line_samples [5051.46817, 5113.5462, 5114.59837, 5154.58083] [0, 1, 1, 0])
   \<and> (\<exists>v. ew [5051.46817, 5113.5462, 5114.59837, 5154.58083] [0, 1, 1, 0] = Inr v
          \<and> \<not> isfinite v)"
  using zero_continuum_not_raised
    [of "[5051.46817, 5113.5462, 5114.59837, 5154.58083]" "[0, 1, 1, 0]"
        "[\<lparr>left = 4801, c0 = 0, c1 = 0, c2 = 0, c3 = 0\<rparr>]" 4860 1]
  unfolding zero_continuum_example by (simp add: evaluate_poly_def)

text \<open>
  C3, as stated, fails on that spectrum: the spline evaluates to 0 at the line sample
  4860 and the computation returns \<open>+inf\<close>.
\<close>

theorem zero_continuum_returns_inf:
  "cs [5051.46817, 5113.5462, 5114.59837, 5154.58083] [0, 1, 1, 0]
     = Inr [\<lparr>left = 4801, c0 = 0, c1 = 0, c2 = 0, c3 = 0\<rparr>]
   \<and> call [\<lparr>left = 4801, c0 = 0, c1 = 0, c2 = 0, c3 = 0\<rparr>] 4860 = 0
   \<and> ew [5051.46817, 5113.5462, 5114.59837, 5154.58083] [0, 1, 1, 0] = Inr (Inf True)"
  unfolding ew_eq zero_continuum_example by (simp add: andthen_def evaluate_poly_def)

subsection \<open>C4: a line window outside the range of the continuum samples\<close>

text \<open>
  C4, as amended. Line samples outside the wavelength range of the continuum samples
  raise nothing: the spline extrapolates. On every input on which the spline is
  constructed, a line sample below the first continuum wavelength is evaluated with
  the first piece of the spline, a line sample above the last continuum wavelength
  with its last piece, and the computation returns a value. The fluxes of the
  continuum samples are taken of magnitude at most \<open>10^100\<close>: that keeps the
  float64 arithmetic of the constructor away from overflow, which the exact
  arithmetic of the model does not have and on which the constructor raises.
\<close>

theorem line_outside_continuum_range:
  assumes "cs wave flux = Inr S"
    and "\<forall>(w, f) \<in> set (continuum_samples wave flux). \<bar>f\<bar> \<le> 10 ^ 100"
    and "\<forall>(w, f) \<in> set (line_samples wave flux).
           w < fst (hd (continuum_samples wave flux))
         \<or> fst (last (continuum_samples wave flux)) < w"
  shows "(\<exists>v. ew wave flux = Inr v)
       \<and> (\<forall>(w, f) \<in> set (line_samples wave flux).
            call S w = evaluate_poly (if w < fst (hd (continuum_samples wave flux))
                                      then hd S else last S) w)"
proof -
  let ?n = "continuum_samples wave flux"
  from assms(1) have "CubicSpline (map fst ?n) (map snd ?n) = Inr S"
    by (simp add: cs_eq split: if_splits)
  note pieces = CubicSpline_pieces [OF this]
  have lefts: "map left S = butlast (map fst ?n)"
    using pieces(1) by (rule lefts_of_pieces)
  from pieces(3) have ne: "?n \<noteq> []"
    by auto
  have node: "left p \<in> set (map fst ?n)" if "p \<in> set S" for p
  proof -
    from that have "left p \<in> set (map left S)" by simp
    then show ?thesis unfolding lefts by (rule in_set_butlastD)
  qed
  have below: "call S w = evaluate_poly (hd S) w" if "w < fst (hd ?n)" for w
  proof -
    have "w < left p" if "p \<in> set (tl S)" for p
    proof -
      from that pieces(4) have "p \<in> set S" by (metis list.set_sel(2))
      then have "hd (map fst ?n) \<le> left p"
        using pieces(2) node by (intro increasing_hd_le)
      with \<open>w < fst (hd ?n)\<close> ne show ?thesis by (simp add: hd_map)
    qed
    with pieces(4) show ?thesis by (intro call_first_piece) auto
  qed
  have above: "call S w = evaluate_poly (last S) w" if "fst (last ?n) < w" for w
  proof -
    have "left p \<le> w" if "p \<in> set S" for p
    proof -
      have "left p \<le> last (map fst ?n)"
        using pieces(2) node [OF that] by (intro increasing_le_last)
      with \<open>fst (last ?n) < w\<close> ne show ?thesis by (simp add: last_map)
    qed
    with pieces(4) show ?thesis by (intro call_last_piece) auto
  qed
  have "\<exists>v. ew wave flux = Inr v"
    using assms(1) by (simp add: ew_spec andthen_def)
  moreover have "call S w = evaluate_poly (if w < fst (hd ?n) then hd S else last S) w"
    if "(w, f) \<in> set (line_samples wave flux)" for w f
  proof (cases "w < fst (hd ?n)")
    case True
    then show ?thesis by (simp add: below)
  next
    case False
    with assms(3) that have "fst (last ?n) < w" by fastforce
    with False show ?thesis by (simp add: above)
  qed
  ultimately show ?thesis by auto
qed

lemma above_example:
  "continuum_samples [5051.46817, 5052.52034, 5053.57251, 5112.49403, 5113.5462] [1, 2, 4, 2, 2]
     = [(4801, 1), (4802, 2), (4803, 4)]"
  "line_samples [5051.46817, 5052.52034, 5053.57251, 5112.49403, 5113.5462] [1, 2, 4, 2, 2]
     = [(4859, 2), (4860, 2)]"
  "cs [5051.46817, 5052.52034, 5053.57251, 5112.49403, 5113.5462] [1, 2, 4, 2, 2]
     = Inr [\<lparr>left = 4801, c0 = 0, c1 = 1 / 2, c2 = 1 / 2, c3 = 1\<rparr>,
            \<lparr>left = 4802, c0 = 0, c1 = 1 / 2, c2 = 3 / 2, c3 = 2\<rparr>]"
proof -
  let ?W = "[5051.46817, 5052.52034, 5053.57251, 5112.49403, 5113.5462] :: real list"
  let ?F = "[1, 2, 4, 2, 2] :: real list"
  have rest: "restwave ?W = [4801, 4802, 4803, 4859, 4860]"
    by (simp add: z_def)
  show cont: "continuum_samples ?W ?F = [(4801, 1), (4802, 2), (4803, 4)]"
    unfolding continuum_samples_def rest by (simp add: iwave_noline_def)
  show "line_samples ?W ?F = [(4859, 2), (4860, 2)]"
    unfolding line_samples_def rest by (simp add: iwave_lineonly_def)
  have "CubicSpline [4801, 4802, 4803] [1, 2, 4]
          = Inr [\<lparr>left = 4801, c0 = 0, c1 = 1 / 2, c2 = 1 / 2, c3 = 1\<rparr>,
                 \<lparr>left = 4802, c0 = 0, c1 = 1 / 2, c2 = 3 / 2, c3 = 2\<rparr>]"
    by (simp add: CubicSpline_def spline_system_def solve_banded_def hermite_piece_def
          nth_Cons')
  then show "cs ?W ?F
     = Inr [\<lparr>left = 4801, c0 = 0, c1 = 1 / 2, c2 = 1 / 2, c3 = 1\<rparr>,
            \<lparr>left = 4802, c0 = 0, c1 = 1 / 2, c2 = 3 / 2, c3 = 2\<rparr>]"
    unfolding cs_eq cont by simp
qed

theorem line_outside_continuum_range_witness:
  "cs [5051.46817, 5052.52034, 5053.57251, 5112.49403, 5113.5462] [1, 2, 4, 2, 2]
     = Inr [\<lparr>left = 4801, c0 = 0, c1 = 1 / 2, c2 = 1 / 2, c3 = 1\<rparr>,
            \<lparr>left = 4802, c0 = 0, c1 = 1 / 2, c2 = 3 / 2, c3 = 2\<rparr>]
   \<and> continuum_samples [5051.46817, 5052.52034, 5053.57251, 5112.49403, 5113.5462]
        [1, 2, 4, 2, 2] = [(4801, 1), (4802, 2), (4803, 4)]
   \<and> line_samples [5051.46817, 5052.52034, 5053.57251, 5112.49403, 5113.5462]
        [1, 2, 4, 2, 2] = [(4859, 2), (4860, 2)]
   \<and> \<bar>1 :: real\<bar> \<le> 10 ^ 100 \<and> \<bar>2 :: real\<bar> \<le> 10 ^ 100 \<and> \<bar>4 :: real\<bar> \<le> 10 ^ 100
   \<and> (4803 :: real) < 4859 \<and> (4803 :: real) < 4860
   \<and> (\<exists>v. ew [5051.46817, 5052.52034, 5053.57251, 5112.49403, 5113.5462]
               [1, 2, 4, 2, 2] = Inr v)
   \<and> call [\<lparr>left = 4801, c0 = 0, c1 = 1 / 2, c2 = 1 / 2, c3 = 1\<rparr>,
            \<lparr>left = 4802, c0 = 0, c1 = 1 / 2, c2 = 3 / 2, c3 = 2\<rparr>] 4859
       = evaluate_poly \<lparr>left = 4802, c0 = 0, c1 = 1 / 2, c2 = 3 / 2, c3 = 2\<rparr> 4859
   \<and> call [\<lparr>left = 4801, c0 = 0, c1 = 1 / 2, c2 = 1 / 2, c3 = 1\<rparr>,
            \<lparr>left = 4802, c0 = 0, c1 = 1 / 2, c2 = 3 / 2, c3 = 2\<rparr>] 4860
       = evaluate_poly \<lparr>left = 4802, c0 = 0, c1 = 1 / 2, c2 = 3 / 2, c3 = 2\<rparr> 4860"
  using line_outside_continuum_range
    [of "[5051.46817, 5052.52034, 5053.57251, 5112.49403, 5113.5462]" "[1, 2, 4, 2, 2]"
        "[\<lparr>left = 4801, c0 = 0, c1 = 1 / 2, c2 = 1 / 2, c3 = 1\<rparr>,
          \<lparr>left = 4802, c0 = 0, c1 = 1 / 2, c2 = 3 / 2, c3 = 2\<rparr>]"]
  unfolding above_example by simp

lemma outside_example:
  "continuum_samples [5112.49403, 5113.5462, 5125.12007, 5126.17224] [2, 2, 1, 1]
     = [(4871, 1), (4872, 1)]"
  "line_samples [5112.49403, 5113.5462, 5125.12007, 5126.17224] [2, 2, 1, 1]
     = [(4859, 2), (4860, 2)]"
proof -
  let ?W = "[5112.49403, 5113.5462, 5125.12007, 5126.17224] :: real list"
  let ?F = "[2, 2, 1, 1] :: real list"
  have rest: "restwave ?W = [4859, 4860, 4871, 4872]"
    by (simp add: z_def)
  show "continuum_samples ?W ?F = [(4871, 1), (4872, 1)]"
    unfolding continuum_samples_def rest by (simp add: iwave_noline_def)
  show "line_samples ?W ?F = [(4859, 2), (4860, 2)]"
    unfolding line_samples_def rest by (simp add: iwave_lineonly_def)
qed

text \<open>
  C4, as stated, fails: with continuum samples at 4871 and 4872 only, the line
  samples at 4859 and 4860 lie below the range of the spline's nodes, and the
  computation returns 1.
\<close>

theorem line_outside_continuum_range_returns:
  "continuum_samples [5112.49403, 5113.5462, 5125.12007, 5126.17224] [2, 2, 1, 1]
     = [(4871, 1), (4872, 1)]
   \<and> line_samples [5112.49403, 5113.5462, 5125.12007, 5126.17224] [2, 2, 1, 1]
     = [(4859, 2), (4860, 2)]
   \<and> ew [5112.49403, 5113.5462, 5125.12007, 5126.17224] [2, 2, 1, 1] = Inr (Fin 1)"
  unfolding ew_eq cs_eq outside_example
  by (simp add: two_nodes andthen_def hermite_piece_def evaluate_poly_def)

subsection \<open>C5: malformed input\<close>

text \<open>
  C5, as amended. With arrays of different lengths the notebook fails before a spline
  is built: no spline is assigned and no equivalent width is returned. The first
  statement that uses both arrays, the plot of the spectrum, raises ValueError; the
  statement that builds the spline, taken by itself, raises IndexError when it
  indexes the flux, and for an empty wavelength array, whose empty mask numpy accepts,
  the ValueError of the constructor. With arrays of the same length, wavelengths
  inside the continuum windows that are not strictly increasing fail with the
  ValueError of the spline's constructor.
\<close>

theorem malformed_input:
  "(length flux \<noteq> length wave \<longrightarrow>
      (\<exists>e. cs wave flux = Inl e \<and> ew wave flux = Inl e)
    \<and> plot wave flux = Inl ValueError
    \<and> andthen (bool_index (restwave wave) (map iwave_noline (restwave wave))) (\<lambda>xc.
        andthen (bool_index flux (map iwave_noline (restwave wave))) (\<lambda>yc.
          CubicSpline xc yc))
      = Inl (if wave = [] then ValueError else IndexError))
   \<and> (length flux = length wave \<and> \<not> sorted_wrt (<) (filter iwave_noline (restwave wave)) \<longrightarrow>
      CubicSpline (map fst (continuum_samples wave flux))
                  (map snd (continuum_samples wave flux)) = Inl ValueError
    \<and> cs wave flux = Inl ValueError \<and> ew wave flux = Inl ValueError)"
proof (intro conjI impI)
  assume "length flux \<noteq> length wave"
  then show "\<exists>e. cs wave flux = Inl e \<and> ew wave flux = Inl e"
    by (simp add: ew_eq cs_eq andthen_def)
  from \<open>length flux \<noteq> length wave\<close> show "plot wave flux = Inl ValueError"
    by (auto simp: plot_def)
  from \<open>length flux \<noteq> length wave\<close>
  show "andthen (bool_index (restwave wave) (map iwave_noline (restwave wave))) (\<lambda>xc.
          andthen (bool_index flux (map iwave_noline (restwave wave))) (\<lambda>yc.
            CubicSpline xc yc))
        = Inl (if wave = [] then ValueError else IndexError)"
    by (simp add: andthen_def index_restwave index_flux [of flux] CubicSpline_def)
next
  assume a: "length flux = length wave
             \<and> \<not> sorted_wrt (<) (filter iwave_noline (restwave wave))"
  then have "length flux = length wave" ..
  then have "filter iwave_noline (restwave wave) = map fst (continuum_samples wave flux)"
    by (rule continuum_wavelengths)
  with a have "\<not> sorted_wrt (<) (map fst (continuum_samples wave flux))"
    by simp
  then show c: "CubicSpline (map fst (continuum_samples wave flux))
                  (map snd (continuum_samples wave flux)) = Inl ValueError"
    by (simp add: CubicSpline_samples)
  with a show "cs wave flux = Inl ValueError" "ew wave flux = Inl ValueError"
    by (simp_all add: ew_eq cs_eq andthen_def)
qed

theorem malformed_input_witness:
  "length [1, 1 :: real] \<noteq> length [5051.46817, 5113.5462, 5154.58083 :: real]
   \<and> (\<exists>e. cs [5051.46817, 5113.5462, 5154.58083] [1, 1] = Inl e
          \<and> ew [5051.46817, 5113.5462, 5154.58083] [1, 1] = Inl e)
   \<and> plot [5051.46817, 5113.5462, 5154.58083] [1, 1] = Inl ValueError
   \<and> bool_index [1, 1 :: real] (map iwave_noline (restwave [5051.46817, 5113.5462, 5154.58083]))
       = Inl IndexError
   \<and> length [1, 2 :: real] \<noteq> length ([] :: real list)
   \<and> (\<exists>e. cs [] [1, 2] = Inl e \<and> ew [] [1, 2] = Inl e)
   \<and> bool_index [1, 2 :: real] (map iwave_noline (restwave [])) = Inr []
   \<and> CubicSpline [] [] = Inl ValueError
   \<and> length [1, 1, 1 :: real] = length [5154.58083, 5113.5462, 5051.46817 :: real]
   \<and> \<not> sorted_wrt (<) (filter iwave_noline (restwave [5154.58083, 5113.5462, 5051.46817]))
   \<and> cs [5154.58083, 5113.5462, 5051.46817] [1, 1, 1] = Inl ValueError
   \<and> ew [5154.58083, 5113.5462, 5051.46817] [1, 1, 1] = Inl ValueError"
proof -
  have rest: "restwave [5154.58083, 5113.5462, 5051.46817] = [4899, 4860, 4801]"
    by (simp add: z_def)
  have "\<not> sorted_wrt (<) (filter iwave_noline (restwave [5154.58083, 5113.5462, 5051.46817]))"
    unfolding rest by (simp add: iwave_noline_def)
  moreover have "bool_index [1, 1 :: real]
                   (map iwave_noline (restwave [5051.46817, 5113.5462, 5154.58083]))
                 = Inl IndexError"
    by (simp add: bool_index_def)
  moreover have "bool_index [1, 2 :: real] (map iwave_noline (restwave [])) = Inr []"
    by (simp add: bool_index_def)
  moreover have "CubicSpline [] [] = Inl ValueError"
    by (simp add: CubicSpline_def)
  ultimately show ?thesis
    using malformed_input [of "[1, 1]" "[5051.46817, 5113.5462, 5154.58083]"]
      malformed_input [of "[1, 2]" "[]"]
      malformed_input [of "[1, 1, 1]" "[5154.58083, 5113.5462, 5051.46817]"]
    by simp
qed

text \<open>
  C5, as stated, fails: these wavelengths are not increasing (4860 comes before 4801
  and before 4859), the continuum windows select 4801 and 4899 only, and the
  computation returns \<open>-1\<close>.
\<close>

theorem unordered_wavelengths_return:
  "\<not> sorted_wrt (<) (restwave [5113.5462, 5051.46817, 5112.49403, 5154.58083])
   \<and> ew [5113.5462, 5051.46817, 5112.49403, 5154.58083] [2, 1, 2, 1] = Inr (Fin (- 1))"
proof -
  let ?W = "[5113.5462, 5051.46817, 5112.49403, 5154.58083] :: real list"
  let ?F = "[2, 1, 2, 1] :: real list"
  have rest: "restwave ?W = [4860, 4801, 4859, 4899]"
    by (simp add: z_def)
  have cont: "continuum_samples ?W ?F = [(4801, 1), (4899, 1)]"
    unfolding continuum_samples_def rest by (simp add: iwave_noline_def)
  have line: "line_samples ?W ?F = [(4860, 2), (4859, 2)]"
    unfolding line_samples_def rest by (simp add: iwave_lineonly_def)
  have "ew ?W ?F = Inr (Fin (- 1))"
    unfolding ew_eq cs_eq cont line
    by (simp add: two_nodes andthen_def hermite_piece_def evaluate_poly_def)
  moreover have "\<not> sorted_wrt (<) (restwave ?W)"
    unfolding rest by simp
  ultimately show ?thesis by simp
qed

subsection \<open>C6: fewer than two continuum samples\<close>

text \<open>
  C6. Where the continuum windows select fewer than two wavelengths, the statement
  that constructs the spline raises: the variable \<open>cs\<close> is never assigned and no
  equivalent width is returned. For arrays of the same length the exception is the
  ValueError of the constructor (for arrays of different lengths an earlier statement
  has raised).
\<close>

theorem too_few_continuum_samples:
  "length (filter iwave_noline (restwave wave)) < 2 \<Longrightarrow>
     \<exists>e. cs wave flux = Inl e \<and> ew wave flux = Inl e
        \<and> (length flux = length wave \<longrightarrow>
             e = ValueError
           \<and> CubicSpline (map fst (continuum_samples wave flux))
                          (map snd (continuum_samples wave flux)) = Inl ValueError)"
proof (cases "length flux = length wave")
  case False
  then show ?thesis by (simp add: ew_eq cs_eq andthen_def)
next
  case True
  assume "length (filter iwave_noline (restwave wave)) < 2"
  with True have "length (continuum_samples wave flux) < 2"
    by (simp add: continuum_wavelengths [of flux wave])
  with True show ?thesis
    by (simp add: ew_eq cs_eq andthen_def CubicSpline_samples)
qed

theorem too_few_continuum_samples_witness:
  "length (filter iwave_noline (restwave [5051.46817, 5113.5462, 5114.59837])) < 2
   \<and> length [1, 2, 2 :: real] = length [5051.46817, 5113.5462, 5114.59837 :: real]
   \<and> cs [5051.46817, 5113.5462, 5114.59837] [1, 2, 2] = Inl ValueError
   \<and> ew [5051.46817, 5113.5462, 5114.59837] [1, 2, 2] = Inl ValueError"
proof -
  have rest: "restwave [5051.46817, 5113.5462, 5114.59837] = [4801, 4860, 4861]"
    by (simp add: z_def)
  have few: "length (filter iwave_noline (restwave [5051.46817, 5113.5462, 5114.59837])) < 2"
    unfolding rest by (simp add: iwave_noline_def)
  then show ?thesis
    using too_few_continuum_samples [of "[5051.46817, 5113.5462, 5114.59837]" "[1, 2, 2]"]
    by auto
qed

subsection \<open>C7: a spectrum without a line\<close>

text \<open>
  C7. A spectrum has no line when its flux equals the continuum, that is the fitted
  spline, at the line samples. Its equivalent width is 0 where that continuum is
  not zero. A flux that is the same nonzero constant at every sample is such a
  spectrum: the spline through constant values is that constant.
\<close>

theorem no_line_zero_width:
  assumes "cs wave flux = Inr S"
    and "(\<forall>(w, f) \<in> set (line_samples wave flux). f = call S w \<and> f \<noteq> 0)
       \<or> (\<exists>k. k \<noteq> 0 \<and> (\<forall>f \<in> set flux. f = k))"
  shows "ew wave flux = Inr (Fin 0)"
  using assms(2)
proof
  assume "\<forall>(w, f) \<in> set (line_samples wave flux). f = call S w \<and> f \<noteq> 0"
  then have "\<forall>(w, f) \<in> set (line_samples wave flux). f = call S w \<and> call S w \<noteq> 0"
    by auto
  with assms(1) show ?thesis by (rule ew_no_line)
next
  assume "\<exists>k. k \<noteq> 0 \<and> (\<forall>f \<in> set flux. f = k)"
  then obtain k where k: "k \<noteq> 0" "\<forall>f \<in> set flux. f = k" by blast
  from assms(1) have S: "CubicSpline (map fst (continuum_samples wave flux))
                           (map snd (continuum_samples wave flux)) = Inr S"
    by (simp add: cs_eq split: if_splits)
  have "\<forall>(w, f) \<in> set (continuum_samples wave flux). f = k"
    using k(2) by (auto simp: continuum_samples_def dest: set_zip_rightD)
  with S have const: "call S w = k" for w
    by (rule CubicSpline_const)
  have "\<forall>(w, f) \<in> set (line_samples wave flux). f = k"
    using k(2) by (auto simp: line_samples_def dest: set_zip_rightD)
  with const k(1) have "\<forall>(w, f) \<in> set (line_samples wave flux). f = call S w \<and> call S w \<noteq> 0"
    by auto
  with assms(1) show ?thesis by (rule ew_no_line)
qed

theorem no_line_zero_width_witness:
  "set [3, 3, 3, 3, 3, 3, 3 :: real] = {3} \<and> (3::real) \<noteq> 0
   \<and> ew [5060.9377, 5081.9811, 5103.0245, 5113.5462, 5115.65054, 5124.0679, 5145.1113]
         [3, 3, 3, 3, 3, 3, 3] = Inr (Fin 0)
   \<and> cs [5060.9377, 5081.9811, 5103.0245, 5113.5462, 5115.65054, 5124.0679, 5145.1113]
         [1, 3, 5, 6, 6.2, 7, 9]
       = Inr [\<lparr>left = 4810, c0 = 0, c1 = 0, c2 = 1 / 10, c3 = 1\<rparr>,
              \<lparr>left = 4830, c0 = 0, c1 = 0, c2 = 1 / 10, c3 = 3\<rparr>,
              \<lparr>left = 4850, c0 = 0, c1 = 0, c2 = 1 / 10, c3 = 5\<rparr>,
              \<lparr>left = 4870, c0 = 0, c1 = 0, c2 = 1 / 10, c3 = 7\<rparr>]
   \<and> line_samples [5060.9377, 5081.9811, 5103.0245, 5113.5462, 5115.65054, 5124.0679, 5145.1113]
         [1, 3, 5, 6, 6.2, 7, 9] = [(4860, 6), (4862, 6.2)]
   \<and> call [\<lparr>left = 4810, c0 = 0, c1 = 0, c2 = 1 / 10, c3 = 1\<rparr>,
            \<lparr>left = 4830, c0 = 0, c1 = 0, c2 = 1 / 10, c3 = 3\<rparr>,
            \<lparr>left = 4850, c0 = 0, c1 = 0, c2 = 1 / 10, c3 = 5\<rparr>,
            \<lparr>left = 4870, c0 = 0, c1 = 0, c2 = 1 / 10, c3 = 7\<rparr>] 4860 = 6
   \<and> call [\<lparr>left = 4810, c0 = 0, c1 = 0, c2 = 1 / 10, c3 = 1\<rparr>,
            \<lparr>left = 4830, c0 = 0, c1 = 0, c2 = 1 / 10, c3 = 3\<rparr>,
            \<lparr>left = 4850, c0 = 0, c1 = 0, c2 = 1 / 10, c3 = 5\<rparr>,
            \<lparr>left = 4870, c0 = 0, c1 = 0, c2 = 1 / 10, c3 = 7\<rparr>] 4862 = 6.2
   \<and> ew [5060.9377, 5081.9811, 5103.0245, 5113.5462, 5115.65054, 5124.0679, 5145.1113]
         [1, 3, 5, 6, 6.2, 7, 9] = Inr (Fin 0)"
proof -
  let ?W = "[5060.9377, 5081.9811, 5103.0245, 5113.5462, 5115.65054, 5124.0679, 5145.1113]
              :: real list"
  let ?K = "[3, 3, 3, 3, 3, 3, 3] :: real list"
  let ?F = "[1, 3, 5, 6, 6.2, 7, 9] :: real list"
  let ?S = "[\<lparr>left = 4810, c0 = 0, c1 = 0, c2 = 1 / 10, c3 = 1\<rparr>,
             \<lparr>left = 4830, c0 = 0, c1 = 0, c2 = 1 / 10, c3 = 3\<rparr>,
             \<lparr>left = 4850, c0 = 0, c1 = 0, c2 = 1 / 10, c3 = 5\<rparr>,
             \<lparr>left = 4870, c0 = 0, c1 = 0, c2 = 1 / 10, c3 = (7::real)\<rparr>]"
  have "continuum_samples ?W ?K = [(4810, 3), (4830, 3), (4850, 3), (4870, 3), (4890, 3)]"
    unfolding continuum_samples_def seven_samples by (simp add: iwave_noline_def)
  moreover have "\<exists>T. CubicSpline [4810, 4830, 4850, 4870, 4890] [3, 3, 3, 3, 3] = Inr T"
    by (simp add: CubicSpline_def spline_system_def solve_banded_def upt_rec nth_Cons')
  ultimately obtain T where T: "cs ?W ?K = Inr T"
    by (auto simp: cs_eq)
  have "\<exists>k. k \<noteq> 0 \<and> (\<forall>f \<in> set ?K. f = k)"
    by (intro exI [of _ 3]) simp
  then have flat: "ew ?W ?K = Inr (Fin 0)"
    using no_line_zero_width [OF T] by blast
  have at_line: "call ?S 4860 = 6" "call ?S 4862 = 6.2"
    by (simp_all add: evaluate_poly_def)
  then have "\<forall>(w, f) \<in> set (line_samples ?W ?F). f = call ?S w \<and> f \<noteq> 0"
    unfolding seven_samples_line_free(2) by simp
  then have "ew ?W ?F = Inr (Fin 0)"
    using no_line_zero_width [OF seven_samples_line_free(1)] by blast
  with flat at_line seven_samples_line_free show ?thesis
    by simp
qed

subsection \<open>C8: doubling the line\<close>



subsection \<open>C9: the computation is a function of the two arrays\<close>

text \<open>
  C9. Run the statements of the notebook from two namespaces that hold the same
  \<open>wave\<close> and the same \<open>flux\<close>, whatever their other variables hold from earlier
  runs: both runs raise the same exception or neither raises, and then both assign
  the same equivalent width. A run leaves \<open>wave\<close> and \<open>flux\<close> as they were.
\<close>

theorem Hbeta_deterministic_and_pure:
  assumes "nb_wave s1 = nb_wave s2" and "nb_flux s1 = nb_flux s2"
  shows "snd (exec Hbeta_cells s1) = snd (exec Hbeta_cells s2)
       \<and> (snd (exec Hbeta_cells s1) = None \<longrightarrow>
            nb_ew (fst (exec Hbeta_cells s1)) = nb_ew (fst (exec Hbeta_cells s2)))
       \<and> nb_wave (fst (exec Hbeta_cells s1)) = nb_wave s1
       \<and> nb_flux (fst (exec Hbeta_cells s1)) = nb_flux s1"
proof -
  obtain t1 r1 where e1: "exec Hbeta_cells s1 = (t1, r1)" by (cases "exec Hbeta_cells s1")
  obtain t2 r2 where e2: "exec Hbeta_cells s2 = (t2, r2)" by (cases "exec Hbeta_cells s2")
  note b1 = exec_Hbeta_cells [OF e1] and b2 = exec_Hbeta_cells [OF e2]
  have "r1 = r2 \<and> (r1 = None \<longrightarrow> nb_ew t1 = nb_ew t2)"
    using b1 b2 assms by (cases r1; cases r2) auto
  with b1 show ?thesis by (simp add: e1 e2)
qed

theorem Hbeta_deterministic_and_pure_witness:
  "nb_wave
        \<lparr>nb_wave = [5051.46817, 5113.5462, 5114.59837, 5154.58083], nb_flux = [1, 2, 3, 1],
         nb_z = 0, nb_restwave = [], nb_iwave = [], nb_iwave_noline = [], nb_cs = [],
         nb_iwave_lineonly = [], nb_linesub = [], nb_ew = NaN\<rparr>
   = nb_wave
        \<lparr>nb_wave = [5051.46817, 5113.5462, 5114.59837, 5154.58083], nb_flux = [1, 2, 3, 1],
         nb_z = 7, nb_restwave = [1], nb_iwave = [True], nb_iwave_noline = [False],
         nb_cs = [\<lparr>left = 0, c0 = 1, c1 = 1, c2 = 1, c3 = 1\<rparr>],
         nb_iwave_lineonly = [True], nb_linesub = [5], nb_ew = Fin 42\<rparr>
   \<and> nb_flux
        \<lparr>nb_wave = [5051.46817, 5113.5462, 5114.59837, 5154.58083], nb_flux = [1, 2, 3, 1],
         nb_z = 0, nb_restwave = [], nb_iwave = [], nb_iwave_noline = [], nb_cs = [],
         nb_iwave_lineonly = [], nb_linesub = [], nb_ew = NaN\<rparr>
   = nb_flux
        \<lparr>nb_wave = [5051.46817, 5113.5462, 5114.59837, 5154.58083], nb_flux = [1, 2, 3, 1],
         nb_z = 7, nb_restwave = [1], nb_iwave = [True], nb_iwave_noline = [False],
         nb_cs = [\<lparr>left = 0, c0 = 1, c1 = 1, c2 = 1, c3 = 1\<rparr>],
         nb_iwave_lineonly = [True], nb_linesub = [5], nb_ew = Fin 42\<rparr>
   \<and> snd (exec Hbeta_cells
        \<lparr>nb_wave = [5051.46817, 5113.5462, 5114.59837, 5154.58083], nb_flux = [1, 2, 3, 1],
         nb_z = 0, nb_restwave = [], nb_iwave = [], nb_iwave_noline = [], nb_cs = [],
         nb_iwave_lineonly = [], nb_linesub = [], nb_ew = NaN\<rparr>)
     = None
   \<and> snd (exec Hbeta_cells
        \<lparr>nb_wave = [5051.46817, 5113.5462, 5114.59837, 5154.58083], nb_flux = [1, 2, 3, 1],
         nb_z = 7, nb_restwave = [1], nb_iwave = [True], nb_iwave_noline = [False],
         nb_cs = [\<lparr>left = 0, c0 = 1, c1 = 1, c2 = 1, c3 = 1\<rparr>],
         nb_iwave_lineonly = [True], nb_linesub = [5], nb_ew = Fin 42\<rparr>)
     = None
   \<and> nb_ew (fst (exec Hbeta_cells
        \<lparr>nb_wave = [5051.46817, 5113.5462, 5114.59837, 5154.58083], nb_flux = [1, 2, 3, 1],
         nb_z = 0, nb_restwave = [], nb_iwave = [], nb_iwave_noline = [], nb_cs = [],
         nb_iwave_lineonly = [], nb_linesub = [], nb_ew = NaN\<rparr>))
     = Fin (3 / 2)
   \<and> nb_ew (fst (exec Hbeta_cells
        \<lparr>nb_wave = [5051.46817, 5113.5462, 5114.59837, 5154.58083], nb_flux = [1, 2, 3, 1],
         nb_z = 7, nb_restwave = [1], nb_iwave = [True], nb_iwave_noline = [False],
         nb_cs = [\<lparr>left = 0, c0 = 1, c1 = 1, c2 = 1, c3 = 1\<rparr>],
         nb_iwave_lineonly = [True], nb_linesub = [5], nb_ew = Fin 42\<rparr>))
     = Fin (3 / 2)
   \<and> nb_wave (fst (exec Hbeta_cells
        \<lparr>nb_wave = [5051.46817, 5113.5462, 5114.59837, 5154.58083], nb_flux = [1, 2, 3, 1],
         nb_z = 0, nb_restwave = [], nb_iwave = [], nb_iwave_noline = [], nb_cs = [],
         nb_iwave_lineonly = [], nb_linesub = [], nb_ew = NaN\<rparr>))
     = [5051.46817, 5113.5462, 5114.59837, 5154.58083]
   \<and> nb_flux (fst (exec Hbeta_cells
        \<lparr>nb_wave = [5051.46817, 5113.5462, 5114.59837, 5154.58083], nb_flux = [1, 2, 3, 1],
         nb_z = 0, nb_restwave = [], nb_iwave = [], nb_iwave_noline = [], nb_cs = [],
         nb_iwave_lineonly = [], nb_linesub = [], nb_ew = NaN\<rparr>))
     = [1, 2, 3, 1]"
proof -
  let ?s1 = "\<lparr>nb_wave = [5051.46817, 5113.5462, 5114.59837, 5154.58083], nb_flux = [1, 2, 3, 1],
         nb_z = 0, nb_restwave = [], nb_iwave = [], nb_iwave_noline = [], nb_cs = [],
         nb_iwave_lineonly = [], nb_linesub = [], nb_ew = NaN\<rparr>"
  let ?s2 = "\<lparr>nb_wave = [5051.46817, 5113.5462, 5114.59837, 5154.58083], nb_flux = [1, 2, 3, 1],
         nb_z = 7, nb_restwave = [1], nb_iwave = [True], nb_iwave_noline = [False],
         nb_cs = [\<lparr>left = 0, c0 = 1, c1 = 1, c2 = 1, c3 = 1\<rparr>],
         nb_iwave_lineonly = [True], nb_linesub = [5], nb_ew = Fin 42\<rparr>"
  have "ew (nb_wave ?s1) (nb_flux ?s1) = Inr (Fin (3 / 2))"
    using four_samples_ew by simp
  then have "snd (exec Hbeta_cells ?s1) = None"
    and "nb_ew (fst (exec Hbeta_cells ?s1)) = Fin (3 / 2)"
    using exec_Hbeta_cells_value [of ?s1] by blast+
  then show ?thesis
    using Hbeta_deterministic_and_pure [of ?s1 ?s2] by simp
qed

subsection \<open>C10: the excess at the samples shared by both windows\<close>

text \<open>
  C10, as amended. The entries of \<open>linesub\<close> belong to the wavelengths
  \<open>restwave[iwave_lineonly]\<close>. Where such a wavelength also lies inside a continuum
  window, the sample is a node of the spline; if it is not the last node, the spline
  is evaluated there at the left breakpoint of a piece, returns the flux of the node,
  and the excess is exactly zero. So a nonzero excess belongs to a wavelength of the
  closed gap [4858, 4865] between the continuum windows, the two ends included, or
  to the last node of the spline: there the last piece is evaluated at its right end
  (lemma \<open>call_last_node\<close>), and what float64 returns is the flux of the node only
  up to rounding. The fluxes of
  the continuum samples are taken of magnitude at most \<open>10^100\<close>, which keeps the
  coefficients of the pieces finite in float64.
\<close>

theorem overlap_excess_zero:
  assumes "linesub wave flux = Inr ls"
    and "\<forall>(w, f) \<in> set (continuum_samples wave flux). \<bar>f\<bar> \<le> 10 ^ 100"
  shows "length ls = length (filter iwave_lineonly (restwave wave))
       \<and> (\<forall>i < length ls.
             iwave_noline (filter iwave_lineonly (restwave wave) ! i)
           \<and> filter iwave_lineonly (restwave wave) ! i \<noteq> fst (last (continuum_samples wave flux))
             \<longrightarrow> ls ! i = 0)
       \<and> (\<forall>i < length ls. ls ! i \<noteq> 0
             \<longrightarrow> (4858 \<le> filter iwave_lineonly (restwave wave) ! i
                  \<and> filter iwave_lineonly (restwave wave) ! i \<le> 4865)
               \<or> filter iwave_lineonly (restwave wave) ! i
                    = fst (last (continuum_samples wave flux)))"
proof -
  let ?xl = "filter iwave_lineonly (restwave wave)"
  let ?line = "line_samples wave flux"
  let ?n = "continuum_samples wave flux"
  from assms(1) obtain S where S: "cs wave flux = Inr S"
    and ls: "ls = map (\<lambda>(w, f). f - call S w) ?line"
    by (auto simp: linesub_eq andthen_def split: sum.splits)
  from S have len: "length flux = length wave"
    and "CubicSpline (map fst ?n) (map snd ?n) = Inr S"
    by (simp_all add: cs_eq split: if_splits)
  note pieces = CubicSpline_pieces [OF this(2)]
  have "sorted_wrt (<) (butlast (map fst ?n))"
    using pieces(2) by (simp add: butlast_conv_take sorted_wrt_take)
  then have inc: "sorted_wrt (<) (map left S)"
    using pieces(1) by (simp add: lefts_of_pieces)
  have xl: "?xl = map fst ?line"
    using len by (rule line_wavelengths)
  have zero: "ls ! i = 0"
    if "i < length ls" "iwave_noline (?xl ! i)" "?xl ! i \<noteq> fst (last ?n)" for i
  proof -
    obtain w f where wf: "?line ! i = (w, f)" by (cases "?line ! i")
    from that(1) have i: "i < length ?line" by (simp add: ls)
    then have "(w, f) \<in> set ?line" using wf by (metis nth_mem)
    then have "(w, f) \<in> set (zip (restwave wave) flux)"
      by (simp add: line_samples_def)
    moreover from that(2) i wf have "iwave_noline w" by (simp add: xl)
    ultimately have "(w, f) \<in> set ?n"
      by (simp add: continuum_samples_def)
    moreover from that(3) i wf have "fst (w, f) \<noteq> fst (last ?n)" by (simp add: xl)
    ultimately have "(w, f) \<in> set (butlast ?n)"
      by (rule in_butlast)
    then have "(w, f) \<in> set (map (\<lambda>p. (left p, c3 p)) S)"
      by (simp only: pieces(1))
    then obtain p where p: "p \<in> set S" "left p = w" "c3 p = f"
      by auto
    from inc p(1) have "call S (left p) = evaluate_poly p (left p)"
      by (rule call_left_breakpoint)
    then have "call S (left p) = c3 p"
      by (simp only: evaluate_poly_left)
    then have "call S w = f"
      by (simp only: p(2,3))
    with i wf show ?thesis by (simp add: ls)
  qed
  have inside: "iwave_lineonly (?xl ! i)" if "i < length ls" for i
  proof -
    from that have "i < length ?xl" by (simp add: ls xl)
    then have "?xl ! i \<in> set ?xl" by (rule nth_mem)
    then show ?thesis by simp
  qed
  have gap: "(4858 \<le> ?xl ! i \<and> ?xl ! i \<le> 4865) \<or> ?xl ! i = fst (last ?n)"
    if "i < length ls" "ls ! i \<noteq> 0" for i
  proof (cases "?xl ! i = fst (last ?n)")
    case True
    then show ?thesis by simp
  next
    case False
    with that zero have "\<not> iwave_noline (?xl ! i)" by blast
    with inside [OF that(1)] show ?thesis
      by (auto simp: iwave_noline_def iwave_lineonly_def)
  qed
  from zero gap show ?thesis by (simp add: ls xl)
qed

theorem overlap_excess_zero_witness:
  "linesub [5108.28535, 5113.5462, 5124.0679, 5125.12007] [5.5, 12, 7, 7.1] = Inr [0, 6]
   \<and> continuum_samples [5108.28535, 5113.5462, 5124.0679, 5125.12007] [5.5, 12, 7, 7.1]
       = [(4855, 5.5), (4870, 7), (4871, 7.1)]
   \<and> \<bar>5.5 :: real\<bar> \<le> 10 ^ 100 \<and> \<bar>7 :: real\<bar> \<le> 10 ^ 100 \<and> \<bar>7.1 :: real\<bar> \<le> 10 ^ 100
   \<and> filter iwave_lineonly (restwave [5108.28535, 5113.5462, 5124.0679, 5125.12007])
       = [4855, 4860]
   \<and> iwave_noline 4855 \<and> (4855 :: real) \<noteq> 4871 \<and> [0, 6 :: real] ! 0 = 0
   \<and> [0, 6 :: real] ! 1 \<noteq> 0 \<and> (4858::real) \<le> [4855, 4860] ! 1 \<and> [4855, 4860] ! 1 \<le> (4865::real)"
proof -
  let ?W = "[5108.28535, 5113.5462, 5124.0679, 5125.12007] :: real list"
  let ?F = "[5.5, 12, 7, 7.1] :: real list"
  have rest: "restwave ?W = [4855, 4860, 4870, 4871]"
    by (simp add: z_def)
  have cont: "continuum_samples ?W ?F = [(4855, 5.5), (4870, 7), (4871, 7.1)]"
    unfolding continuum_samples_def rest by (simp add: iwave_noline_def)
  have line: "line_samples ?W ?F = [(4855, 5.5), (4860, 12)]"
    unfolding line_samples_def rest by (simp add: iwave_lineonly_def)
  have xl: "filter iwave_lineonly (restwave ?W) = [4855, 4860]"
    unfolding rest by (simp add: iwave_lineonly_def)
  have spline: "CubicSpline [4855, 4870, 4871] [11 / 2, 7, 71 / 10] =
      Inr [\<lparr>left = 4855, c0 = 0, c1 = 0, c2 = 1 / 10, c3 = 11 / 2\<rparr>,
           \<lparr>left = 4870, c0 = 0, c1 = 0, c2 = 1 / 10, c3 = 7\<rparr>]"
    by (simp add: CubicSpline_def spline_system_def solve_banded_def hermite_piece_def
          nth_Cons')
  have ls: "linesub ?W ?F = Inr [0, 6]"
    unfolding linesub_eq cs_eq cont line
    by (simp add: spline andthen_def evaluate_poly_def)
  have bound: "\<forall>(w, f) \<in> set (continuum_samples ?W ?F). \<bar>f\<bar> \<le> 10 ^ 100"
    unfolding cont by simp
  have "iwave_noline 4855"
    by (simp add: iwave_noline_def)
  then show ?thesis
    using overlap_excess_zero [OF ls bound] unfolding xl cont using ls xl cont
    by (simp add: nth_Cons')
qed

text \<open>
  C10, as stated, fails at the ends of the gap: the sample at the rest wavelength 4858
  is inside the line window and inside no continuum window, its excess is 1, and 4858
  is not in the open interval (4858, 4865).
\<close>

theorem excess_at_gap_end:
  "linesub [5051.46817, 5111.44186, 5154.58083] [1, 2, 1] = Inr [1]
   \<and> filter iwave_lineonly (restwave [5051.46817, 5111.44186, 5154.58083]) = [4858]
   \<and> \<not> iwave_noline 4858
   \<and> \<not> (4858 < (4858::real) \<and> (4858::real) < 4865)"
proof -
  let ?W = "[5051.46817, 5111.44186, 5154.58083] :: real list"
  let ?F = "[1, 2, 1] :: real list"
  have rest: "restwave ?W = [4801, 4858, 4899]"
    by (simp add: z_def)
  have cont: "continuum_samples ?W ?F = [(4801, 1), (4899, 1)]"
    unfolding continuum_samples_def rest by (simp add: iwave_noline_def)
  have line: "line_samples ?W ?F = [(4858, 2)]"
    unfolding line_samples_def rest by (simp add: iwave_lineonly_def)
  have "linesub ?W ?F = Inr [1]"
    unfolding linesub_eq cs_eq cont line
    by (simp add: two_nodes andthen_def hermite_piece_def evaluate_poly_def)
  moreover have "filter iwave_lineonly (restwave ?W) = [4858]"
    unfolding rest by (simp add: iwave_lineonly_def)
  ultimately show ?thesis by (simp add: iwave_noline_def)
qed
end
